theory Spec2Isabelle
  imports Main "HOL-Library.Char_ord" "HOL-Library.List_Lexorder" "HOL-Library.Multiset"
begin

section \<open>Strings\<close>

text \<open>
  A Python \<open>str\<close> is modelled by its UTF-8 bytes, a \<open>string\<close> (a \<open>char list\<close>). Equality,
  code-point order, \<open>html.escape\<close> and \<open>urllib.parse.quote\<close> (which encodes to UTF-8 before
  quoting) all agree with their byte-wise counterparts on that representation.
\<close>

definition sq :: string where
  "sq = [CHR 0x27]"

definition dq :: string where
  "dq = [CHR 0x22]"

definition nl :: string where
  "nl = [CHR 0x0A]"

definition digit_char :: "nat \<Rightarrow> char" where
  "digit_char d = char_of (48 + d mod 10)"

function show_nat :: "nat \<Rightarrow> string" where
  "show_nat n = (if n < 10 then [digit_char n] else show_nat (n div 10) @ [digit_char (n mod 10)])"
  by pat_completeness auto
termination
  by (relation "measure id") auto

declare show_nat.simps [simp del]

text \<open>\<open>str(i)\<close> for a Python int, as an f-string prints it.\<close>

definition show_int :: "int \<Rightarrow> string" where
  "show_int i = (if i < 0 then CHR ''-'' # show_nat (nat (- i)) else show_nat (nat i))"

text \<open>
  The \<open>%02d\<close> and \<open>%04d\<close> fields of \<open>strftime\<close>. (For a year below 1000 the C library
  of some platforms prints \<open>%Y\<close> without the leading zeros; the model always pads.)
\<close>

definition pad2 :: "nat \<Rightarrow> string" where
  "pad2 n = (if n < 10 then CHR ''0'' # show_nat n else show_nat n)"

definition pad4 :: "nat \<Rightarrow> string" where
  "pad4 n = replicate (4 - length (show_nat n)) (CHR ''0'') @ show_nat n"

text \<open>\<open>sep.join(lines)\<close>.\<close>

fun join :: "string \<Rightarrow> string list \<Rightarrow> string" where
  "join sep [] = []"
| "join sep [x] = x"
| "join sep (x # y # ys) = x @ sep @ join sep (y # ys)"

text \<open>\<open>s.replace(c, r)\<close> for a one-character pattern \<open>c\<close>.\<close>

definition replace_char :: "char \<Rightarrow> string \<Rightarrow> string \<Rightarrow> string" where
  "replace_char c r s = concat (map (\<lambda>x. if x = c then r else [x]) s)"

text \<open>
  \<open>html.escape(s)\<close> with its default \<open>quote=True\<close>: five replacements, the ampersand first.
\<close>

definition html_escape :: "string \<Rightarrow> string" where
  "html_escape s =
     replace_char (CHR 0x27) ''&#x27;''
       (replace_char (CHR 0x22) ''&quot;''
         (replace_char (CHR ''>'') ''&gt;''
           (replace_char (CHR ''<'') ''&lt;''
             (replace_char (CHR ''&'') ''&amp;'' s))))"

text \<open>
  \<open>urllib.parse.quote(s)\<close> with its default \<open>safe='/'\<close>: letters, digits, \<open>_.-~\<close> and \<open>/\<close>
  are kept, every other byte becomes \<open>%XX\<close> in upper-case hexadecimal.
\<close>

definition always_safe :: "char \<Rightarrow> bool" where
  "always_safe c =
     (let n = (of_char c :: nat) in
        (65 \<le> n \<and> n \<le> 90) \<or> (97 \<le> n \<and> n \<le> 122) \<or> (48 \<le> n \<and> n \<le> 57)
        \<or> c = CHR ''_'' \<or> c = CHR ''.'' \<or> c = CHR ''-'' \<or> c = CHR ''~'' \<or> c = CHR ''/'')"

definition hex_char :: "nat \<Rightarrow> char" where
  "hex_char d = (if d mod 16 < 10 then char_of (48 + d mod 16) else char_of (55 + d mod 16))"

definition quote_byte :: "char \<Rightarrow> string" where
  "quote_byte c =
     (if always_safe c then [c]
      else [CHR ''%'', hex_char ((of_char c :: nat) div 16), hex_char ((of_char c :: nat) mod 16)])"

definition quote :: "string \<Rightarrow> string" where
  "quote s = concat (map quote_byte s)"

section \<open>Dates\<close>

text \<open>
  A \<open>datetime.date\<close> is modelled by its proleptic Gregorian ordinal (\<open>date.toordinal()\<close>,
  day 1 is 0001-01-01): \<open>d - timedelta(days=k)\<close> is \<open>d - k\<close>, and \<open>d.weekday()\<close> is
  \<open>(d.toordinal() + 6) % 7\<close>, Monday being 0 and Sunday 6. The dates of this program are
  derived from the current day, far inside the range where the library raises no OverflowError.
\<close>

type_synonym date = int

definition weekday :: "date \<Rightarrow> int" where
  "weekday d = (d + 6) mod 7"

text \<open>
  Lines 260 to 262 of \<open>main\<close>: the pair \<open>(last_sunday, last_saturday)\<close> computed from \<open>today\<close>.
\<close>

definition last_saturday :: "date \<Rightarrow> date" where
  "last_saturday today = today - (weekday today + 2)"

definition last_sunday :: "date \<Rightarrow> date" where
  "last_sunday today = last_saturday today - 6"

text \<open>
  The specification's window, in its own words: the end of the most recently completed
  Sunday-to-Saturday week is the latest Saturday strictly before \<open>today\<close> (a week whose Saturday
  is today is still running). Among the seven days before \<open>today\<close> exactly one is a Saturday.
\<close>

definition spec_last_completed_saturday :: "date \<Rightarrow> date" where
  "spec_last_completed_saturday today = today - 1 - ((weekday (today - 1) + 2) mod 7)"

subsection \<open>The calendar of the datetime library\<close>

definition is_leap :: "nat \<Rightarrow> bool" where
  "is_leap y = (y mod 4 = 0 \<and> (y mod 100 \<noteq> 0 \<or> y mod 400 = 0))"

definition days_before_year :: "nat \<Rightarrow> nat" where
  "days_before_year y = (y - 1) * 365 + (y - 1) div 4 - (y - 1) div 100 + (y - 1) div 400"

definition days_in_month :: "nat \<Rightarrow> nat \<Rightarrow> nat" where
  "days_in_month y m =
     (if m = 2 \<and> is_leap y then 29
      else [0, 31, 28, 31, 30, 31, 30, 31, 31, 30, 31, 30, 31] ! (m mod 13))"

definition days_before_month :: "nat \<Rightarrow> nat \<Rightarrow> nat" where
  "days_before_month y m =
     [0, 0, 31, 59, 90, 120, 151, 181, 212, 243, 273, 304, 334] ! (m mod 13)
     + (if m > 2 \<and> is_leap y then 1 else 0)"

definition ymd2ord :: "nat \<Rightarrow> nat \<Rightarrow> nat \<Rightarrow> date" where
  "ymd2ord y m d = int (days_before_year y + days_before_month y m + d)"

text \<open>\<open>_ord2ymd\<close>: the year, month and day of an ordinal.\<close>

definition ord2ymd :: "date \<Rightarrow> nat \<times> nat \<times> nat" where
  "ord2ymd ordinal =
     (let n = nat (ordinal - 1);
          n400 = n div 146097; n = n mod 146097;
          n100 = n div 36524; n = n mod 36524;
          n4 = n div 1461; n = n mod 1461;
          n1 = n div 365; n = n mod 365;
          year = n400 * 400 + 1 + n100 * 100 + n4 * 4 + n1
      in if n1 = 4 \<or> n100 = 4 then (year - 1, 12, 31)
         else
           let leapyear = (n1 = 3 \<and> (n4 \<noteq> 24 \<or> n100 = 3));
               month = (n + 50) div 32;
               preceding = [0, 0, 31, 59, 90, 120, 151, 181, 212, 243, 273, 304, 334] ! (month mod 13)
                           + (if month > 2 \<and> leapyear then 1 else 0)
           in if preceding > n
              then
                let month' = month - 1;
                    preceding' = preceding
                      - ((if month' = 2 \<and> leapyear then 29
                          else [0, 31, 28, 31, 30, 31, 30, 31, 31, 30, 31, 30, 31] ! (month' mod 13)))
                in (year, month', n - preceding' + 1)
              else (year, month, n - preceding + 1))"

record datetime =
  year :: nat
  month :: nat
  day :: nat
  hour :: nat
  minute :: nat
  second :: nat
  microsecond :: nat

text \<open>
  \<open>datetime.combine(d, time.min, tzinfo=utc)\<close> and \<open>datetime.combine(d, time.max, tzinfo=utc)\<close>.
  Every datetime of the program is in UTC, so the time zone is not a field.
\<close>

definition combine_min :: "date \<Rightarrow> datetime" where
  "combine_min d =
     (case ord2ymd d of (y, m, dd) \<Rightarrow>
        \<lparr>year = y, month = m, day = dd, hour = 0, minute = 0, second = 0, microsecond = 0\<rparr>)"

definition combine_max :: "date \<Rightarrow> datetime" where
  "combine_max d =
     (case ord2ymd d of (y, m, dd) \<Rightarrow>
        \<lparr>year = y, month = m, day = dd, hour = 23, minute = 59, second = 59,
         microsecond = 999999\<rparr>)"

subsection \<open>strftime, in the C locale\<close>

definition month_abbr :: "nat \<Rightarrow> string" where
  "month_abbr m =
     [''Dec'', ''Jan'', ''Feb'', ''Mar'', ''Apr'', ''May'', ''Jun'', ''Jul'', ''Aug'', ''Sep'',
      ''Oct'', ''Nov'', ''Dec''] ! (m mod 13)"

definition day_name :: "int \<Rightarrow> string" where
  "day_name w =
     [''Monday'', ''Tuesday'', ''Wednesday'', ''Thursday'', ''Friday'', ''Saturday'', ''Sunday'']
       ! (nat (w mod 7))"

text \<open>\<open>dt.strftime('%b %d')\<close>\<close>

definition strftime_b_d :: "datetime \<Rightarrow> string" where
  "strftime_b_d dt = month_abbr (month dt) @ '' '' @ pad2 (day dt)"

text \<open>\<open>dt.strftime('%Y-%m-%d')\<close>\<close>

definition strftime_Y_m_d :: "datetime \<Rightarrow> string" where
  "strftime_Y_m_d dt = pad4 (year dt) @ ''-'' @ pad2 (month dt) @ ''-'' @ pad2 (day dt)"

text \<open>\<open>dt.strftime('%A')\<close>\<close>

definition strftime_A :: "datetime \<Rightarrow> string" where
  "strftime_A dt = day_name (weekday (ymd2ord (year dt) (month dt) (day dt)))"

text \<open>\<open>dt.strftime('%H:%M')\<close>\<close>

definition strftime_H_M :: "datetime \<Rightarrow> string" where
  "strftime_H_M dt = pad2 (hour dt) @ '':'' @ pad2 (minute dt)"

subsection \<open>strptime with the format of the wiki's timestamps\<close>

datatype py_error = ValueError | IndexError | AttributeError | RequestException

definition is_digit :: "char \<Rightarrow> bool" where
  "is_digit c = (48 \<le> (of_char c :: nat) \<and> (of_char c :: nat) \<le> 57)"

definition digits_val :: "string \<Rightarrow> nat" where
  "digits_val ds = foldl (\<lambda>a c. 10 * a + ((of_char c :: nat) - 48)) 0 ds"

text \<open>
  A numeric directive followed by a literal: the digits up to the literal have to be one of the
  forms the directive accepts (\<open>ok\<close> is given their number and their value).
\<close>

definition field :: "(nat \<Rightarrow> nat \<Rightarrow> bool) \<Rightarrow> string \<Rightarrow> (nat \<times> string) option" where
  "field ok s =
     (let ds = takeWhile is_digit s
      in if ok (length ds) (digits_val ds) then Some (digits_val ds, dropWhile is_digit s)
         else None)"

text \<open>\<open>%d\<close> also accepts a space followed by one digit from 1 to 9.\<close>

definition day_field :: "string \<Rightarrow> (nat \<times> string) option" where
  "day_field s =
     (case s of
        c # d # r \<Rightarrow>
          if c = CHR '' '' then
            (if is_digit d \<and> d \<noteq> CHR ''0'' then Some (digits_val [d], r) else None)
          else field (\<lambda>l v. (l = 1 \<or> l = 2) \<and> 1 \<le> v \<and> v \<le> 31) s
      | _ \<Rightarrow> field (\<lambda>l v. (l = 1 \<or> l = 2) \<and> 1 \<le> v \<and> v \<le> 31) s)"

text \<open>A literal of the format; the library matches it without regard to case.\<close>

definition expect :: "string \<Rightarrow> string \<Rightarrow> string option" where
  "expect cs s = (case s of [] \<Rightarrow> None | c # r \<Rightarrow> if c \<in> set cs then Some r else None)"

text \<open>
  \<open>datetime.strptime(s, '%Y-%m-%dT%H:%M:%SZ')\<close>: four digits of year, then month, day, hour,
  minute and second of one or two digits in their ranges, the whole string consumed, and the
  fields a date and time that exist. Everything else raises ValueError. The digits are the ASCII
  digits (the library also takes the other decimal digits of Unicode, which the model rejects).
\<close>

definition strptime :: "string \<Rightarrow> py_error + datetime" where
  "strptime s =
     (case
        Option.bind (field (\<lambda>l v. l = 4) s) (\<lambda>(y, s).
        Option.bind (expect ''-'' s) (\<lambda>s.
        Option.bind (field (\<lambda>l v. (l = 1 \<or> l = 2) \<and> 1 \<le> v \<and> v \<le> 12) s) (\<lambda>(m, s).
        Option.bind (expect ''-'' s) (\<lambda>s.
        Option.bind (day_field s) (\<lambda>(d, s).
        Option.bind (expect ''Tt'' s) (\<lambda>s.
        Option.bind (field (\<lambda>l v. l = 1 \<or> l = 2 \<and> v \<le> 23) s) (\<lambda>(H, s).
        Option.bind (expect '':'' s) (\<lambda>s.
        Option.bind (field (\<lambda>l v. l = 1 \<or> l = 2 \<and> v \<le> 59) s) (\<lambda>(M, s).
        Option.bind (expect '':'' s) (\<lambda>s.
        Option.bind (field (\<lambda>l v. l = 1 \<or> l = 2 \<and> v \<le> 61) s) (\<lambda>(S, s).
        Option.bind (expect ''Zz'' s) (\<lambda>s.
          if s = [] \<and> 1 \<le> y \<and> d \<le> days_in_month y m \<and> S \<le> 59
          then Some \<lparr>year = y, month = m, day = d, hour = H, minute = M, second = S,
                     microsecond = 0\<rparr>
          else None))))))))))))
      of None \<Rightarrow> Inl ValueError | Some dt \<Rightarrow> Inr dt)"

section \<open>Edit records\<close>

text \<open>
  One entry of the recent-changes feed. The formatter reads \<open>title\<close>, \<open>timestamp\<close>, \<open>user\<close>
  and \<open>revid\<close> by subscript and \<open>comment\<close> and \<open>old_revid\<close> with \<open>get\<close> and a default, so the
  last two are optional.
\<close>

record edit =
  rc_title :: string
  rc_timestamp :: string
  rc_user :: string
  rc_comment :: "string option"
  rc_revid :: int
  rc_old_revid :: "int option"

text \<open>
  \<open>changes.sort(key=lambda x: x['timestamp'], reverse=True)\<close>: the list is reversed, sorted
  stably in ascending order of the key and reversed again, so records with equal timestamps
  keep their order.
\<close>

definition sort_changes :: "edit list \<Rightarrow> edit list" where
  "sort_changes changes = rev (sort_key rc_timestamp (rev changes))"

section \<open>The formatter\<close>

definition edit_entry :: "string \<Rightarrow> edit \<Rightarrow> datetime \<Rightarrow> string" where
  "edit_entry base_url rc ts =
     (let time_str = strftime_H_M ts;
          comment = html_escape (case rc_comment rc of None \<Rightarrow> [] | Some c \<Rightarrow> c);
          diff_link = base_url @ ''/w/index.php?diff='' @ show_int (rc_revid rc) @ ''&oldid=''
                      @ show_int (case rc_old_revid rc of None \<Rightarrow> 0 | Some i \<Rightarrow> i)
      in ''<li>'' @ ''[<a href='' @ sq @ diff_link @ sq @ ''>diff</a>] ''
         @ ''['' @ time_str @ ''] ''
         @ ''('' @ sq @ comment @ sq @ '') ''
         @ ''</li>'')"

text \<open>The \<open>for rc in group\<close> loop of \<open>format_group\<close>.\<close>

fun format_entries :: "string \<Rightarrow> edit list \<Rightarrow> py_error + string list" where
  "format_entries base_url [] = Inr []"
| "format_entries base_url (rc # rcs) =
     (case strptime (rc_timestamp rc) of
        Inl e \<Rightarrow> Inl e
      | Inr ts \<Rightarrow>
          (case format_entries base_url rcs of
             Inl e \<Rightarrow> Inl e
           | Inr ls \<Rightarrow> Inr (edit_entry base_url rc ts # ls)))"

definition time_range :: "datetime \<Rightarrow> datetime \<Rightarrow> string" where
  "time_range first_ts last_ts = ''['' @ strftime_H_M last_ts @ '' - '' @ strftime_H_M first_ts @ '']''"

definition group_header :: "string \<Rightarrow> edit \<Rightarrow> datetime \<Rightarrow> datetime \<Rightarrow> string" where
  "group_header base_url first_edit first_ts last_ts =
     (let page_title = rc_title first_edit;
          username = rc_user first_edit;
          page_title_encoded = quote (replace_char (CHR '' '') ''_'' page_title);
          page_url = base_url @ ''/wiki/'' @ page_title_encoded;
          user_url = base_url @ ''/wiki/User:'' @ quote username
      in ''<p><strong>'' @ time_range first_ts last_ts @ '' ''
         @ ''<a href='' @ sq @ page_url @ sq @ ''><strong>'' @ html_escape page_title
         @ ''</strong></a> ''
         @ ''[<a href='' @ sq @ user_url @ sq @ ''>'' @ html_escape username
         @ ''</a>]</strong></p>'')"

text \<open>
  \<open>format_group(group, base_url)\<close>, its parameter written \<open>grp\<close>; \<open>group[0]\<close> raises
  IndexError on an empty group.
\<close>

definition format_group :: "edit list \<Rightarrow> string \<Rightarrow> py_error + string list" where
  "format_group grp base_url =
     (case grp of
        [] \<Rightarrow> Inl IndexError
      | first_edit # _ \<Rightarrow>
          (let last_edit = last grp in
           case strptime (rc_timestamp first_edit) of
             Inl e \<Rightarrow> Inl e
           | Inr first_ts \<Rightarrow>
               (case strptime (rc_timestamp last_edit) of
                  Inl e \<Rightarrow> Inl e
                | Inr last_ts \<Rightarrow>
                    (case format_entries base_url grp of
                       Inl e \<Rightarrow> Inl e
                     | Inr entries \<Rightarrow>
                         Inr ([group_header base_url first_edit first_ts last_ts, ''<ul>'']
                              @ entries @ [''</ul>''])))))"

text \<open>The local variables of \<open>format_changes\<close> that its loop updates.\<close>

record fc_state =
  current_date :: "string option"
  last_user :: "string option"
  last_page :: "string option"
  cur_group :: "edit list"
  output_lines :: "string list"

text \<open>\<open>if group: output_lines.extend(format_group(group, base_url)); group = []\<close>\<close>

definition flush :: "string \<Rightarrow> fc_state \<Rightarrow> py_error + fc_state" where
  "flush base_url st =
     (if cur_group st = [] then Inr st
      else case format_group (cur_group st) base_url of
             Inl e \<Rightarrow> Inl e
           | Inr ls \<Rightarrow> Inr (st\<lparr>cur_group := [], output_lines := output_lines st @ ls\<rparr>))"

text \<open>The part of the loop body that opens a date section (lines 127 to 137).\<close>

definition open_section :: "string \<Rightarrow> fc_state \<Rightarrow> datetime \<Rightarrow> py_error + fc_state" where
  "open_section base_url st ts =
     (let date_str = strftime_Y_m_d ts; day_of_week = strftime_A ts in
      if current_date st \<noteq> Some date_str then
        (case flush base_url (st\<lparr>current_date := Some date_str\<rparr>) of
           Inl e \<Rightarrow> Inl e
         | Inr st' \<Rightarrow>
             Inr (st'\<lparr>last_user := None, last_page := None,
                      output_lines := output_lines st'
                        @ [''<h2>'' @ date_str @ '' ('' @ day_of_week @ '')</h2>'']\<rparr>))
      else Inr st)"

text \<open>One iteration of the loop over the sorted changes (lines 120 to 154).\<close>

definition format_step :: "string \<Rightarrow> fc_state \<Rightarrow> edit \<Rightarrow> py_error + fc_state" where
  "format_step base_url st rc =
     (case strptime (rc_timestamp rc) of
        Inl e \<Rightarrow> Inl e
      | Inr ts \<Rightarrow>
          (case open_section base_url st ts of
             Inl e \<Rightarrow> Inl e
           | Inr st1 \<Rightarrow>
               if Some (rc_user rc) = last_user st1 \<and> Some (rc_title rc) = last_page st1
               then Inr (st1\<lparr>cur_group := cur_group st1 @ [rc]\<rparr>)
               else
                 (case flush base_url st1 of
                    Inl e \<Rightarrow> Inl e
                  | Inr st2 \<Rightarrow>
                      Inr (st2\<lparr>last_user := Some (rc_user rc), last_page := Some (rc_title rc),
                               cur_group := cur_group st2 @ [rc]\<rparr>))))"

fun format_loop :: "string \<Rightarrow> fc_state \<Rightarrow> edit list \<Rightarrow> py_error + fc_state" where
  "format_loop base_url st [] = Inr st"
| "format_loop base_url st (rc # rcs) =
     (case format_step base_url st rc of
        Inl e \<Rightarrow> Inl e
      | Inr st' \<Rightarrow> format_loop base_url st' rcs)"

text \<open>
  \<open>format_changes(changes, base_url, start_date, end_date, title)\<close>. The sort is in place, so
  the caller's list is changed as well: the function returns the list as it leaves it, next to
  the HTML or the exception raised. The sort happens before anything can raise.
\<close>

definition format_changes ::
  "edit list \<Rightarrow> string \<Rightarrow> datetime \<Rightarrow> datetime \<Rightarrow> string \<Rightarrow> edit list \<times> (py_error + string)" where
  "format_changes changes base_url start_date end_date title =
     (let start_str = strftime_b_d start_date;
          end_str = strftime_b_d end_date;
          header = ''<h1>Weekly '' @ title @ '' report: '' @ start_str @ '' - '' @ end_str @ ''</h1>'';
          intro = ''<p>Here are the recent changes on '' @ title @ '' for the past week:</p>'';
          changes' = sort_changes changes;
          st0 = \<lparr>current_date = None, last_user = None, last_page = None, cur_group = [],
                 output_lines = [header, intro]\<rparr>
      in (changes',
          case format_loop base_url st0 changes' of
            Inl e \<Rightarrow> Inl e
          | Inr st \<Rightarrow>
              (case flush base_url st of
                 Inl e \<Rightarrow> Inl e
               | Inr st' \<Rightarrow> Inr (join nl (output_lines st')))))"

section \<open>The report as data: date sections and edit groups\<close>

text \<open>
  The formatter writes lines only. To speak about the groups and sections it forms, the same
  pass is run once more with the output kept as data: where \<open>format_changes\<close> appends a
  heading line this pass appends \<open>Heading\<close>, where it appends the lines of
  \<open>format_group(group, base_url)\<close> this pass appends \<open>Group group\<close>. Lemma
  \<open>format_changes_items\<close> below shows that the HTML is the rendering of these items.
\<close>

datatype item = Heading string string | Group "edit list"

record gr_state =
  g_current_date :: "string option"
  g_last_user :: "string option"
  g_last_page :: "string option"
  g_group :: "edit list"
  g_items :: "item list"

definition group_flush :: "gr_state \<Rightarrow> gr_state" where
  "group_flush gs =
     (if g_group gs = [] then gs
      else gs\<lparr>g_group := [], g_items := g_items gs @ [Group (g_group gs)]\<rparr>)"

definition group_open_section :: "gr_state \<Rightarrow> datetime \<Rightarrow> gr_state" where
  "group_open_section gs ts =
     (let date_str = strftime_Y_m_d ts; day_of_week = strftime_A ts in
      if g_current_date gs \<noteq> Some date_str then
        (let gs' = group_flush (gs\<lparr>g_current_date := Some date_str\<rparr>)
         in gs'\<lparr>g_last_user := None, g_last_page := None,
                g_items := g_items gs' @ [Heading date_str day_of_week]\<rparr>)
      else gs)"

definition group_step :: "gr_state \<Rightarrow> edit \<Rightarrow> py_error + gr_state" where
  "group_step gs rc =
     (case strptime (rc_timestamp rc) of
        Inl e \<Rightarrow> Inl e
      | Inr ts \<Rightarrow>
          (let gs1 = group_open_section gs ts in
           if Some (rc_user rc) = g_last_user gs1 \<and> Some (rc_title rc) = g_last_page gs1
           then Inr (gs1\<lparr>g_group := g_group gs1 @ [rc]\<rparr>)
           else
             (let gs2 = group_flush gs1
              in Inr (gs2\<lparr>g_last_user := Some (rc_user rc), g_last_page := Some (rc_title rc),
                          g_group := g_group gs2 @ [rc]\<rparr>))))"

fun group_loop :: "gr_state \<Rightarrow> edit list \<Rightarrow> py_error + gr_state" where
  "group_loop gs [] = Inr gs"
| "group_loop gs (rc # rcs) =
     (case group_step gs rc of
        Inl e \<Rightarrow> Inl e
      | Inr gs' \<Rightarrow> group_loop gs' rcs)"

definition gs0 :: gr_state where
  "gs0 = \<lparr>g_current_date = None, g_last_user = None, g_last_page = None, g_group = [],
          g_items = []\<rparr>"

definition report_items :: "edit list \<Rightarrow> py_error + item list" where
  "report_items changes =
     (case group_loop gs0 (sort_changes changes) of
        Inl e \<Rightarrow> Inl e
      | Inr gs \<Rightarrow> Inr (g_items (group_flush gs)))"

text \<open>
  A DateSection: its heading and the EditGroups that follow it. A group before any heading
  would belong to no section; \<open>sections_never_orphan\<close> shows the pass never produces one.
\<close>

record date_section =
  ds_date :: string
  ds_day :: string
  ds_groups :: "edit list list"

fun add_item :: "date_section list \<Rightarrow> item \<Rightarrow> date_section list" where
  "add_item secs (Heading d w) = secs @ [\<lparr>ds_date = d, ds_day = w, ds_groups = []\<rparr>]"
| "add_item secs (Group g) =
     (if secs = [] then []
      else butlast secs @ [(last secs)\<lparr>ds_groups := ds_groups (last secs) @ [g]\<rparr>])"

definition sections_of :: "item list \<Rightarrow> date_section list" where
  "sections_of items = foldl add_item [] items"

definition date_sections :: "edit list \<Rightarrow> py_error + date_section list" where
  "date_sections changes =
     (case report_items changes of Inl e \<Rightarrow> Inl e | Inr items \<Rightarrow> Inr (sections_of items))"

text \<open>The records of a report, section by section and group by group.\<close>

definition section_records :: "date_section \<Rightarrow> edit list" where
  "section_records s = concat (ds_groups s)"

definition report_records :: "date_section list \<Rightarrow> edit list" where
  "report_records secs = concat (map section_records secs)"

text \<open>The lines the formatter writes for an item, a section and a report.\<close>

definition heading_line :: "string \<Rightarrow> string \<Rightarrow> string" where
  "heading_line date_str day_of_week = ''<h2>'' @ date_str @ '' ('' @ day_of_week @ '')</h2>''"

definition group_lines :: "string \<Rightarrow> edit list \<Rightarrow> string list" where
  "group_lines base_url g = (case format_group g base_url of Inl e \<Rightarrow> [] | Inr ls \<Rightarrow> ls)"

fun item_lines :: "string \<Rightarrow> item \<Rightarrow> string list" where
  "item_lines base_url (Heading d w) = [heading_line d w]"
| "item_lines base_url (Group g) = group_lines base_url g"

definition section_lines :: "string \<Rightarrow> date_section \<Rightarrow> string list" where
  "section_lines base_url s =
     heading_line (ds_date s) (ds_day s) # concat (map (group_lines base_url) (ds_groups s))"

definition report_lines :: "string \<Rightarrow> datetime \<Rightarrow> datetime \<Rightarrow> string \<Rightarrow> date_section list \<Rightarrow> string list" where
  "report_lines base_url start_date end_date title secs =
     [''<h1>Weekly '' @ title @ '' report: '' @ strftime_b_d start_date @ '' - ''
        @ strftime_b_d end_date @ ''</h1>'',
      ''<p>Here are the recent changes on '' @ title @ '' for the past week:</p>'']
     @ concat (map (section_lines base_url) secs)"

text \<open>The UTC calendar date of a record, as the loop computes it.\<close>

definition date_of :: "edit \<Rightarrow> string option" where
  "date_of rc =
     (case strptime (rc_timestamp rc) of Inl e \<Rightarrow> None | Inr ts \<Rightarrow> Some (strftime_Y_m_d ts))"

definition group_ok :: "string \<Rightarrow> edit list \<Rightarrow> bool" where
  "group_ok d g =
     (g \<noteq> [] \<and>
      (\<forall>r \<in> set g. rc_user r = rc_user (hd g) \<and> rc_title r = rc_title (hd g) \<and> date_of r = Some d))"

section \<open>The orchestrator\<close>

text \<open>
  The process environment is a map from variable names to values (\<open>os.getenv\<close>). What the
  outside world answers is a value of type \<open>world\<close>: the current UTC day, the wiki's replies and
  the mail provider's reply. A reply \<open>None\<close> stands for a request that raised
  \<open>RequestException\<close> or a response without the expected keys. The run's effects are the list
  of events in the order they happen: the calls of \<open>session.get\<close>, \<open>session.post\<close> and
  \<open>requests.post\<close> with their URL, the call of \<open>format_changes\<close>, and the log lines (a log
  event carries the message without the interpolated exception text).
\<close>

type_synonym env = "string \<Rightarrow> string option"

datatype page_reply = PageError | Page "edit list" bool

record world =
  utc_today :: date
  token_reply :: "string option"
  login_reply :: "(string \<times> string option) option"
  page_replies :: "page_reply list"
  mail_reply :: "(nat \<times> string) option"

datatype event =
    Session_get string
  | Session_post string "(string \<times> string) list"
  | Requests_post string "(string \<times> string) list"
  | Format_changes
  | Info string
  | Error string

text \<open>
  How a run ends: \<open>sys.exit(code)\<close>, an exception nobody catches (the interpreter prints the
  traceback and the exit status is 1), or \<open>main\<close> returning (exit status 0).
\<close>

datatype outcome = Exit int | Raised py_error | Returned

definition exit_code :: "outcome \<Rightarrow> int" where
  "exit_code oc = (case oc of Exit c \<Rightarrow> c | Raised e \<Rightarrow> 1 | Returned \<Rightarrow> 0)"

type_synonym 'a io = "(outcome + 'a) \<times> event list"

definition bind_io :: "'a io \<Rightarrow> ('a \<Rightarrow> 'b io) \<Rightarrow> 'b io" where
  "bind_io m f =
     (case m of
        (Inl oc, ev) \<Rightarrow> (Inl oc, ev)
      | (Inr a, ev) \<Rightarrow> (case f a of (r, ev') \<Rightarrow> (r, ev @ ev')))"

definition get_login_token :: "world \<Rightarrow> string \<Rightarrow> string io" where
  "get_login_token w url =
     (case token_reply w of
        None \<Rightarrow> (Inl (Exit 1), [Session_get url, Error ''Failed to retrieve login token: ''])
      | Some token \<Rightarrow> (Inr token, [Session_get url]))"

definition login :: "world \<Rightarrow> string \<Rightarrow> string \<Rightarrow> string \<Rightarrow> string \<Rightarrow> unit io" where
  "login w url login_token username password =
     (let params = [(''action'', ''login''), (''lgname'', username), (''lgpassword'', password),
                    (''format'', ''json''), (''lgtoken'', login_token)]
      in case login_reply w of
           None \<Rightarrow> (Inl (Exit 1), [Session_post url params, Error ''Login failed: ''])
         | Some (result, reason) \<Rightarrow>
             if result \<noteq> ''Success''
             then (Inl (Exit 1),
                   [Session_post url params,
                    Error (''Login failed: ''
                           @ (case reason of None \<Rightarrow> ''No reason provided'' | Some r \<Rightarrow> r))])
             else (Inr (), [Session_post url params, Info (''Logged in as '' @ username)]))"

text \<open>
  The \<open>while True\<close> loop of \<open>get_recent_changes\<close>, one reply of the server per request. The
  server's replies are a finite list; a request made when none is left fails like a transport
  error.
\<close>

fun fetch_pages :: "string \<Rightarrow> page_reply list \<Rightarrow> edit list \<Rightarrow> (edit list) io" where
  "fetch_pages url [] changes =
     (Inl (Exit 1), [Session_get url, Error ''Failed to retrieve recent changes: ''])"
| "fetch_pages url (PageError # replies) changes =
     (Inl (Exit 1), [Session_get url, Error ''Failed to retrieve recent changes: ''])"
| "fetch_pages url (Page rcs continue # replies) changes =
     (if continue
      then (case fetch_pages url replies (changes @ rcs) of (r, ev) \<Rightarrow> (r, Session_get url # ev))
      else (Inr (changes @ rcs), [Session_get url]))"

definition get_recent_changes :: "world \<Rightarrow> string \<Rightarrow> datetime \<Rightarrow> datetime \<Rightarrow> (edit list) io" where
  "get_recent_changes w url start_date end_date = fetch_pages url (page_replies w) []"

text \<open>\<open>not x\<close> for the result of \<open>os.getenv\<close>: unset or empty.\<close>

definition unset :: "string option \<Rightarrow> bool" where
  "unset v = (v = None \<or> v = Some [])"

text \<open>A value of \<open>os.getenv\<close> inside an f-string: \<open>None\<close> prints as \<open>None\<close>.\<close>

definition fstr :: "string option \<Rightarrow> string" where
  "fstr v = (case v of None \<Rightarrow> ''None'' | Some s \<Rightarrow> s)"

definition send_email :: "env \<Rightarrow> world \<Rightarrow> string \<Rightarrow> string \<Rightarrow> string \<Rightarrow> (nat \<times> string) io" where
  "send_email env w subject html_content recipient_email =
     (let MAILGUN_API_KEY = env ''MAILGUN_API_KEY'';
          MAILGUN_DOMAIN = env ''MAILGUN_DOMAIN'';
          SENDER_EMAIL = env ''SENDER_EMAIL''
      in if unset MAILGUN_API_KEY \<or> unset MAILGUN_DOMAIN \<or> unset SENDER_EMAIL
         then (Inl (Exit 1), [Error ''Mailgun configuration is missing.''])
         else
           (let request = Requests_post (''https://api.mailgun.net/v3/'' @ fstr MAILGUN_DOMAIN @ ''/messages'')
                            [(''from'', fstr SENDER_EMAIL), (''to'', recipient_email),
                             (''subject'', subject), (''html'', html_content)]
            in case mail_reply w of
                 None \<Rightarrow> (Inl (Raised RequestException), [request])
               | Some response \<Rightarrow> (Inr response, [request])))"

text \<open>\<open>BASE_DOMAIN.split('.')[0]\<close>; on \<open>None\<close> the attribute lookup raises.\<close>

definition report_title :: "string option \<Rightarrow> string io" where
  "report_title BASE_DOMAIN =
     (case BASE_DOMAIN of
        None \<Rightarrow> (Inl (Raised AttributeError), [])
      | Some d \<Rightarrow> (Inr (takeWhile (\<lambda>c. c \<noteq> CHR ''.'') d), []))"

definition run_format_changes ::
  "edit list \<Rightarrow> string \<Rightarrow> datetime \<Rightarrow> datetime \<Rightarrow> string \<Rightarrow> string io" where
  "run_format_changes changes base_url start_date end_date title =
     (case snd (format_changes changes base_url start_date end_date title) of
        Inl e \<Rightarrow> (Inl (Raised e), [Format_changes])
      | Inr html_output \<Rightarrow> (Inr html_output, [Format_changes]))"

definition main_io :: "env \<Rightarrow> world \<Rightarrow> unit io" where
  "main_io env w =
     (let username = env ''MW_USERNAME'';
          password = env ''MW_PASSWORD'';
          recipient_email = env ''RECIPIENT_EMAIL''
      in if unset username \<or> unset password
         then (Inl (Exit 1), [Error ''Username or password not set in environment variables.''])
         else if unset recipient_email
         then (Inl (Exit 1), [Error ''Recipient email not set in environment variables.''])
         else
           (let BASE_DOMAIN = env ''BASE_DOMAIN'';
                URL = ''https://'' @ fstr BASE_DOMAIN @ ''/w/api.php'';
                BASE_URL = ''https://'' @ fstr BASE_DOMAIN
            in bind_io (get_login_token w URL) (\<lambda>login_token.
               bind_io (login w URL login_token (fstr username) (fstr password)) (\<lambda>_.
               (let start_date = combine_min (last_sunday (utc_today w));
                    end_date = combine_max (last_saturday (utc_today w))
                in bind_io (get_recent_changes w URL end_date start_date) (\<lambda>changes.
                   if changes = []
                   then (Inl (Exit 0), [Info ''No recent changes found in the last week.''])
                   else
                     bind_io (report_title BASE_DOMAIN) (\<lambda>title.
                     bind_io (run_format_changes changes BASE_URL end_date start_date title)
                       (\<lambda>html_output.
                     (let subject = ''Weekly '' @ fstr BASE_DOMAIN @ '' report: ''
                                    @ strftime_b_d start_date @ '' - '' @ strftime_b_d end_date
                      in bind_io (send_email env w subject html_output (fstr recipient_email))
                           (\<lambda>response.
                              if fst response = 200
                              then (Inr (), [Info ''Email sent successfully.''])
                              else (Inl (Exit 1),
                                    [Error (''Failed to send email: '' @ snd response)])))))))))))"

text \<open>\<open>main()\<close>: how the run ends, and its events.\<close>

definition main :: "env \<Rightarrow> world \<Rightarrow> outcome \<times> event list" where
  "main env w =
     (case main_io env w of
        (Inl oc, ev) \<Rightarrow> (oc, ev)
      | (Inr _, ev) \<Rightarrow> (Returned, ev))"

section \<open>Example inputs\<close>

text \<open>
  The three records of the specification's scenario: two edits of Page1 by A on 2024-01-02,
  at 10:00 and 09:30, and one edit of Page2 by B at 09:00.
\<close>

definition ex_a1 :: edit where
  "ex_a1 = \<lparr>rc_title = ''Page1'', rc_timestamp = ''2024-01-02T10:00:00Z'', rc_user = ''A'',
            rc_comment = Some ''second'', rc_revid = 12, rc_old_revid = Some 11\<rparr>"

definition ex_a2 :: edit where
  "ex_a2 = \<lparr>rc_title = ''Page1'', rc_timestamp = ''2024-01-02T09:30:00Z'', rc_user = ''A'',
            rc_comment = Some ''first'', rc_revid = 11, rc_old_revid = Some 10\<rparr>"

definition ex_b :: edit where
  "ex_b = \<lparr>rc_title = ''Page2'', rc_timestamp = ''2024-01-02T09:00:00Z'', rc_user = ''B'',
           rc_comment = None, rc_revid = 9, rc_old_revid = None\<rparr>"

text \<open>An edit of Page1 by A on the day before: the same user and page across a date boundary.\<close>

definition ex_a0 :: edit where
  "ex_a0 = \<lparr>rc_title = ''Page1'', rc_timestamp = ''2024-01-01T23:50:00Z'', rc_user = ''A'',
            rc_comment = Some [], rc_revid = 10, rc_old_revid = Some 8\<rparr>"

text \<open>An edit whose title, user name and comment carry the characters HTML gives a meaning.\<close>

definition ex_x :: edit where
  "ex_x = \<lparr>rc_title = ''R&D <b>'', rc_timestamp = ''2024-01-02T08:00:00Z'',
           rc_user = [CHR ''O'', CHR 0x27, CHR ''N'', CHR 0x22, CHR ''>''],
           rc_comment = Some ''<script>'', rc_revid = 8, rc_old_revid = Some 7\<rparr>"

definition ex_base_url :: string where
  "ex_base_url = ''https://wiki.example.org''"

text \<open>An environment with every setting present, and a world in which every request succeeds.\<close>

definition ex_env :: env where
  "ex_env =
     [''MW_USERNAME'' \<mapsto> ''bot'', ''MW_PASSWORD'' \<mapsto> ''secret'',
      ''RECIPIENT_EMAIL'' \<mapsto> ''team@example.org'', ''BASE_DOMAIN'' \<mapsto> ''wiki.example.org'',
      ''MAILGUN_API_KEY'' \<mapsto> ''key'', ''MAILGUN_DOMAIN'' \<mapsto> ''mg.example.org'',
      ''SENDER_EMAIL'' \<mapsto> ''bot@example.org'']"

definition ex_world :: world where
  "ex_world =
     \<lparr>utc_today = 738892, token_reply = Some ''token'', login_reply = Some (''Success'', None),
      page_replies = [Page [ex_a1] True, Page [ex_a2, ex_b] False],
      mail_reply = Some (200, ''Queued'')\<rparr>"

section \<open>Invariants of the grouping pass\<close>

text \<open>No group comes before the first heading.\<close>

definition no_orphan :: "item list \<Rightarrow> bool" where
  "no_orphan items =
     (case items of [] \<Rightarrow> True | Heading d w # _ \<Rightarrow> True | Group g # _ \<Rightarrow> False)"

definition closed_ok :: "date_section list \<Rightarrow> bool" where
  "closed_ok secs = (\<forall>s \<in> set secs. \<forall>g \<in> set (ds_groups s). group_ok (ds_date s) g)"

text \<open>
  What holds of the flushed groups and of the group still open: the open group's records carry
  the key \<open>(last_user, last_page)\<close> and the date of the section opened last.
\<close>

definition groups_inv :: "gr_state \<Rightarrow> bool" where
  "groups_inv gs =
     (let secs = sections_of (g_items gs) in
        no_orphan (g_items gs) \<and> closed_ok secs \<and>
        (\<forall>r \<in> set (g_group gs).
            secs \<noteq> [] \<and> Some (rc_user r) = g_last_user gs \<and> Some (rc_title r) = g_last_page gs
            \<and> date_of r = Some (ds_date (last secs))))"

text \<open>\<open>current_date\<close> is the date of the section opened last.\<close>

definition date_inv :: "gr_state \<Rightarrow> bool" where
  "date_inv gs =
     (let secs = sections_of (g_items gs) in
        g_current_date gs = (if secs = [] then None else Some (ds_date (last secs))))"

text \<open>The records consumed so far, in the order they were consumed.\<close>

definition records_so_far :: "gr_state \<Rightarrow> edit list" where
  "records_so_far gs = report_records (sections_of (g_items gs)) @ g_group gs"

text \<open>
  The state of \<open>format_changes\<close> and the state of the pass that keeps the items agree: the same
  variables, and the lines written after the first lines \<open>pre\<close> are the lines of the items.
\<close>

definition fc_rel :: "string \<Rightarrow> string list \<Rightarrow> fc_state \<Rightarrow> gr_state \<Rightarrow> bool" where
  "fc_rel base_url pre st gs =
     (current_date st = g_current_date gs \<and> last_user st = g_last_user gs \<and>
      last_page st = g_last_page gs \<and> cur_group st = g_group gs \<and>
      output_lines st = pre @ concat (map (item_lines base_url) (g_items gs)) \<and>
      (\<forall>r \<in> set (g_group gs). date_of r \<noteq> None))"

text \<open>The timestamps of the example records, parsed.\<close>

definition ts_a1 :: datetime where
  "ts_a1 = \<lparr>year = 2024, month = 1, day = 2, hour = 10, minute = 0, second = 0, microsecond = 0\<rparr>"

definition ts_a2 :: datetime where
  "ts_a2 = \<lparr>year = 2024, month = 1, day = 2, hour = 9, minute = 30, second = 0, microsecond = 0\<rparr>"

definition ts_b :: datetime where
  "ts_b = \<lparr>year = 2024, month = 1, day = 2, hour = 9, minute = 0, second = 0, microsecond = 0\<rparr>"

definition ts_a0 :: datetime where
  "ts_a0 = \<lparr>year = 2024, month = 1, day = 1, hour = 23, minute = 50, second = 0, microsecond = 0\<rparr>"

definition ts_x :: datetime where
  "ts_x = \<lparr>year = 2024, month = 1, day = 2, hour = 8, minute = 0, second = 0, microsecond = 0\<rparr>"

section \<open>Escaped text\<close>

text \<open>
  Text that is safe between HTML tags and inside a quoted attribute: none of \<open><\<close>, \<open>>\<close>, the
  double and the single quote occurs in it, and every ampersand starts one of the five character
  references that \<open>html.escape\<close> writes.
\<close>

definition starts_entity :: "string \<Rightarrow> bool" where
  "starts_entity s =
     (take 5 s = ''&amp;'' \<or> take 4 s = ''&lt;'' \<or> take 4 s = ''&gt;'' \<or> take 6 s = ''&quot;''
      \<or> take 6 s = ''&#x27;'')"

fun html_safe :: "string \<Rightarrow> bool" where
  "html_safe [] = True"
| "html_safe (c # cs) =
     ((if c = CHR ''&'' then starts_entity (c # cs)
       else c \<noteq> CHR ''<'' \<and> c \<noteq> CHR ''>'' \<and> c \<noteq> CHR 0x22 \<and> c \<noteq> CHR 0x27)
      \<and> html_safe cs)"

text \<open>Text that is safe inside a URL: only unreserved characters, the slash and percent escapes.\<close>

definition url_char :: "char \<Rightarrow> bool" where
  "url_char c = (always_safe c \<or> c = CHR ''%'')"

definition url_safe :: "string \<Rightarrow> bool" where
  "url_safe s = list_all url_char s"

section \<open>Points in time\<close>

text \<open>
  The point in time of a datetime, in microseconds since the start of day 1: the order in which
  the datetime library compares two datetimes of one time zone.
\<close>

definition instant :: "datetime \<Rightarrow> int" where
  "instant dt =
     ((ymd2ord (year dt) (month dt) (day dt) * 24 + int (hour dt)) * 60 + int (minute dt)) * 60000000
     + int (second dt) * 1000000 + int (microsecond dt)"

section \<open>The report window\<close>

lemma weekday_range: "0 \<le> weekday d \<and> weekday d < 7"
  by (simp add: weekday_def)

lemma last_saturday_is_saturday: "weekday (last_saturday today) = 5"
  unfolding last_saturday_def weekday_def by presburger

lemma last_sunday_is_sunday: "weekday (last_sunday today) = 6"
  unfolding last_sunday_def last_saturday_def weekday_def by presburger

lemma spec_last_completed_saturday_is_saturday:
  "weekday (spec_last_completed_saturday today) = 5"
  unfolding spec_last_completed_saturday_def weekday_def by presburger

lemma spec_last_completed_saturday_latest:
  "spec_last_completed_saturday today < today \<and>
   (\<forall>s. weekday s = 5 \<and> s < today \<longrightarrow> s \<le> spec_last_completed_saturday today)"
  unfolding spec_last_completed_saturday_def weekday_def by presburger

lemma last_saturday_refines_spec_unless_sunday:
  "weekday today \<noteq> 6 \<Longrightarrow> last_saturday today = spec_last_completed_saturday today"
  unfolding last_saturday_def spec_last_completed_saturday_def weekday_def by presburger

text \<open>
  Claim C2. The window is meant to be the most recently completed Sunday-to-Saturday week on
  whatever weekday the job runs. On a Sunday it is not: for today = 2024-01-07 (ordinal 738892,
  a Sunday) the week that ended the day before, on Saturday 2024-01-06 (ordinal 738891), is
  complete, but the code ends its window on 2023-12-30 (ordinal 738884), eight days back, and
  starts it on 2023-12-24 (ordinal 738878).
\<close>

theorem report_window_on_sunday:
  "weekday 738892 = 6 \<and>
   last_saturday 738892 = 738884 \<and> last_sunday 738892 = 738878 \<and>
   weekday 738891 = 5 \<and> 738891 < (738892 :: date) \<and>
   spec_last_completed_saturday 738892 = 738891 \<and>
   last_saturday 738892 \<noteq> spec_last_completed_saturday 738892"
  by (simp add: weekday_def last_saturday_def last_sunday_def spec_last_completed_saturday_def)

section \<open>Sections and items\<close>

lemma sections_of_Nil [simp]: "sections_of [] = []"
  by (simp add: sections_of_def)

lemma sections_of_snoc [simp]: "sections_of (items @ [i]) = add_item (sections_of items) i"
  by (simp add: sections_of_def)

lemma report_records_Nil [simp]: "report_records [] = []"
  by (simp add: report_records_def)

lemma report_records_append [simp]:
  "report_records (xs @ ys) = report_records xs @ report_records ys"
  by (simp add: report_records_def)

lemma add_heading_nonempty: "add_item secs (Heading d w) \<noteq> []"
  by simp

lemma add_heading_last: "last (add_item secs (Heading d w)) = \<lparr>ds_date = d, ds_day = w, ds_groups = []\<rparr>"
  by simp

lemma add_group_last:
  "secs \<noteq> [] \<Longrightarrow> add_item secs (Group g) \<noteq> [] \<and>
     ds_date (last (add_item secs (Group g))) = ds_date (last secs)"
  by simp

lemma report_records_add_heading: "report_records (add_item secs (Heading d w)) = report_records secs"
  by (simp add: report_records_def section_records_def)

lemma report_records_add_group:
  assumes "secs \<noteq> []"
  shows "report_records (add_item secs (Group g)) = report_records secs @ g"
proof -
  have "report_records secs = report_records (butlast secs @ [last secs])"
    using assms by simp
  also have "\<dots> = report_records (butlast secs) @ concat (ds_groups (last secs))"
    by (simp add: report_records_def section_records_def)
  finally show ?thesis using assms
    by (simp add: report_records_def section_records_def)
qed

lemma closed_ok_add_heading: "closed_ok secs \<Longrightarrow> closed_ok (add_item secs (Heading d w))"
  by (auto simp: closed_ok_def)

lemma closed_ok_add_group:
  assumes "closed_ok secs" and "secs \<noteq> []" and "group_ok (ds_date (last secs)) g"
  shows "closed_ok (add_item secs (Group g))"
proof -
  have l: "last secs \<in> set secs" using assms(2) by simp
  have b: "set (butlast secs) \<subseteq> set secs" by (auto dest: in_set_butlastD)
  show ?thesis using assms l b by (auto simp: closed_ok_def)
qed

lemma no_orphan_snoc:
  "no_orphan items \<Longrightarrow> items \<noteq> [] \<or> (\<exists>d w. i = Heading d w) \<Longrightarrow> no_orphan (items @ [i])"
  by (cases items) (auto simp: no_orphan_def split: item.splits)

lemma no_orphan_butlast: "no_orphan (items @ [i]) \<Longrightarrow> no_orphan items"
  by (cases items) (auto simp: no_orphan_def split: item.splits)

lemma no_orphan_sections_nonempty:
  "no_orphan items \<Longrightarrow> items \<noteq> [] \<Longrightarrow> sections_of items \<noteq> []"
proof (induction items rule: rev_induct)
  case Nil
  then show ?case by simp
next
  case (snoc i items)
  show ?case
  proof (cases i)
    case (Heading d w)
    then show ?thesis by simp
  next
    case (Group g)
    have "items \<noteq> []" using snoc.prems(1) Group by (cases items) (auto simp: no_orphan_def)
    moreover have "no_orphan items" using snoc.prems(1) by (rule no_orphan_butlast)
    ultimately have "sections_of items \<noteq> []" using snoc.IH by simp
    then show ?thesis using Group by simp
  qed
qed

lemma section_lines_concat_snoc_group:
  assumes "secs \<noteq> []"
  shows "concat (map (section_lines b) (add_item secs (Group g)))
         = concat (map (section_lines b) secs) @ group_lines b g"
proof -
  have "concat (map (section_lines b) secs)
        = concat (map (section_lines b) (butlast secs @ [last secs]))"
    using assms by simp
  also have "\<dots> = concat (map (section_lines b) (butlast secs)) @ section_lines b (last secs)"
    by simp
  finally show ?thesis using assms by (simp add: section_lines_def)
qed

lemma item_lines_sections:
  "no_orphan items \<Longrightarrow>
   concat (map (item_lines b) items) = concat (map (section_lines b) (sections_of items))"
proof (induction items rule: rev_induct)
  case Nil
  then show ?case by simp
next
  case (snoc i items)
  have no: "no_orphan items" using snoc.prems by (rule no_orphan_butlast)
  show ?case
  proof (cases i)
    case (Heading d w)
    then show ?thesis using snoc.IH [OF no] by (simp add: section_lines_def)
  next
    case (Group g)
    have "items \<noteq> []" using snoc.prems Group by (cases items) (auto simp: no_orphan_def)
    then have "sections_of items \<noteq> []" using no no_orphan_sections_nonempty by blast
    then show ?thesis using Group snoc.IH [OF no]
      by (simp add: section_lines_concat_snoc_group del: add_item.simps)
  qed
qed

lemma date_of_Some: "date_of r \<noteq> None \<Longrightarrow> \<exists>ts. strptime (rc_timestamp r) = Inr ts"
  by (auto simp: date_of_def split: sum.splits)

lemma date_of_parsed: "strptime (rc_timestamp r) = Inr ts \<Longrightarrow> date_of r = Some (strftime_Y_m_d ts)"
  by (simp add: date_of_def)

lemma group_ok_open:
  assumes "g \<noteq> []"
    and "\<forall>r \<in> set g. Some (rc_user r) = u \<and> Some (rc_title r) = p \<and> date_of r = Some d"
  shows "group_ok d g"
proof -
  have "hd g \<in> set g" using assms(1) by simp
  then have "Some (rc_user (hd g)) = u \<and> Some (rc_title (hd g)) = p" using assms(2) by blast
  then show ?thesis using assms unfolding group_ok_def by (metis option.inject)
qed

lemma group_flush_inv:
  assumes "groups_inv gs"
  shows "groups_inv (group_flush gs) \<and> g_group (group_flush gs) = [] \<and>
         records_so_far (group_flush gs) = records_so_far gs \<and>
         g_current_date (group_flush gs) = g_current_date gs \<and>
         g_last_user (group_flush gs) = g_last_user gs \<and>
         g_last_page (group_flush gs) = g_last_page gs \<and>
         (sections_of (g_items (group_flush gs)) = [] \<longleftrightarrow> sections_of (g_items gs) = []) \<and>
         (sections_of (g_items gs) \<noteq> [] \<longrightarrow>
            ds_date (last (sections_of (g_items (group_flush gs))))
              = ds_date (last (sections_of (g_items gs))))"
proof (cases "g_group gs = []")
  case True
  then show ?thesis using assms by (simp add: group_flush_def)
next
  case False
  let ?secs = "sections_of (g_items gs)"
  have hdin: "hd (g_group gs) \<in> set (g_group gs)" using False by simp
  have ne: "?secs \<noteq> []" using assms hdin unfolding groups_inv_def Let_def by blast
  have items_ne: "g_items gs \<noteq> []" using ne by auto
  have ok: "group_ok (ds_date (last ?secs)) (g_group gs)"
    using assms False unfolding groups_inv_def Let_def
    by (intro group_ok_open [where u = "g_last_user gs" and p = "g_last_page gs"]) auto
  have c: "closed_ok (add_item ?secs (Group (g_group gs)))"
    using assms ne ok unfolding groups_inv_def Let_def by (intro closed_ok_add_group) auto
  have no: "no_orphan (g_items gs @ [Group (g_group gs)])"
    using assms items_ne unfolding groups_inv_def Let_def by (intro no_orphan_snoc) auto
  have gf: "group_flush gs = gs\<lparr>g_group := [], g_items := g_items gs @ [Group (g_group gs)]\<rparr>"
    using False by (simp add: group_flush_def)
  show ?thesis
    unfolding gf using c no ne report_records_add_group [OF ne, of "g_group gs"]
    by (simp add: groups_inv_def records_so_far_def del: add_item.simps) (simp)
qed

section \<open>The grouping pass keeps its invariants\<close>

lemma group_open_section_inv:
  assumes "groups_inv gs" and "date_inv gs"
  shows "groups_inv (group_open_section gs ts) \<and> date_inv (group_open_section gs ts) \<and>
         records_so_far (group_open_section gs ts) = records_so_far gs \<and>
         g_current_date (group_open_section gs ts) = Some (strftime_Y_m_d ts)"
proof (cases "g_current_date gs = Some (strftime_Y_m_d ts)")
  case True
  then show ?thesis using assms by (simp add: group_open_section_def Let_def)
next
  case False
  let ?g0 = "gs\<lparr>g_current_date := Some (strftime_Y_m_d ts)\<rparr>"
  let ?g1 = "group_flush ?g0"
  have i0: "groups_inv ?g0" using assms(1) by (simp add: groups_inv_def)
  have r0: "records_so_far ?g0 = records_so_far gs" by (simp add: records_so_far_def)
  note f = group_flush_inv [OF i0]
  have g1: "groups_inv ?g1" "g_group ?g1 = []" "records_so_far ?g1 = records_so_far gs"
    "g_current_date ?g1 = Some (strftime_Y_m_d ts)"
    using f r0 by simp_all
  have os: "group_open_section gs ts
            = ?g1\<lparr>g_last_user := None, g_last_page := None,
                   g_items := g_items ?g1 @ [Heading (strftime_Y_m_d ts) (strftime_A ts)]\<rparr>"
    using False by (simp add: group_open_section_def Let_def)
  have no: "no_orphan (g_items ?g1 @ [Heading (strftime_Y_m_d ts) (strftime_A ts)])"
    using g1(1) unfolding groups_inv_def Let_def by (intro no_orphan_snoc) auto
  have c: "closed_ok (add_item (sections_of (g_items ?g1)) (Heading (strftime_Y_m_d ts) (strftime_A ts)))"
    using g1(1) unfolding groups_inv_def Let_def by (intro closed_ok_add_heading) auto
  have gi: "groups_inv (group_open_section gs ts)"
    unfolding os using no c g1(2) by (simp add: groups_inv_def)
  have di: "date_inv (group_open_section gs ts)"
    unfolding os using g1(4) by (simp add: date_inv_def)
  have rs: "records_so_far (group_open_section gs ts) = records_so_far gs"
    using g1(2,3) unfolding os
    by (simp add: records_so_far_def report_records_def section_records_def)
  have cd: "g_current_date (group_open_section gs ts) = Some (strftime_Y_m_d ts)"
    unfolding os using g1(4) by simp
  show ?thesis using gi di rs cd by simp
qed

lemma group_step_inv:
  assumes "groups_inv gs" and "date_inv gs" and "group_step gs rc = Inr gs'"
  shows "groups_inv gs' \<and> date_inv gs' \<and> records_so_far gs' = records_so_far gs @ [rc]"
proof -
  obtain ts where ts: "strptime (rc_timestamp rc) = Inr ts"
    using assms(3) by (auto simp: group_step_def split: sum.splits)
  let ?g1 = "group_open_section gs ts"
  note o = group_open_section_inv [OF assms(1,2), of ts]
  have d: "date_of rc = Some (strftime_Y_m_d ts)" using ts by (rule date_of_parsed)
  have cd: "g_current_date ?g1 = Some (strftime_Y_m_d ts)" using o by simp
  have secs1: "sections_of (g_items ?g1) \<noteq> [] \<and>
               ds_date (last (sections_of (g_items ?g1))) = strftime_Y_m_d ts"
    using o cd unfolding date_inv_def Let_def by (auto split: if_splits)
  show ?thesis
  proof (cases "Some (rc_user rc) = g_last_user ?g1 \<and> Some (rc_title rc) = g_last_page ?g1")
    case True
    then have gs': "gs' = ?g1\<lparr>g_group := g_group ?g1 @ [rc]\<rparr>"
      using assms(3) ts by (simp add: group_step_def Let_def)
    show ?thesis unfolding gs' using o True d secs1
      by (auto simp: groups_inv_def date_inv_def records_so_far_def Let_def)
  next
    case False
    let ?g2 = "group_flush ?g1"
    have gs': "gs' = ?g2\<lparr>g_last_user := Some (rc_user rc), g_last_page := Some (rc_title rc),
                           g_group := g_group ?g2 @ [rc]\<rparr>"
      using assms(3) ts False by (simp add: group_step_def Let_def)
    have i1: "groups_inv ?g1" using o by simp
    note f = group_flush_inv [OF i1]
    have secs2: "sections_of (g_items ?g2) \<noteq> [] \<and>
                 ds_date (last (sections_of (g_items ?g2))) = strftime_Y_m_d ts"
      using f secs1 by simp
    have di: "date_inv ?g2" using f cd secs2 by (simp add: date_inv_def)
    have rs: "records_so_far ?g2 = records_so_far gs" using f o by simp
    show ?thesis unfolding gs' using f d secs2 di rs
      by (auto simp: groups_inv_def date_inv_def records_so_far_def Let_def)
  qed
qed

lemma group_loop_inv:
  "groups_inv gs \<Longrightarrow> date_inv gs \<Longrightarrow> group_loop gs rcs = Inr gs' \<Longrightarrow>
   groups_inv gs' \<and> date_inv gs' \<and> records_so_far gs' = records_so_far gs @ rcs"
proof (induction rcs arbitrary: gs)
  case Nil
  then show ?case by simp
next
  case (Cons rc rcs)
  obtain g1 where s: "group_step gs rc = Inr g1" and l: "group_loop g1 rcs = Inr gs'"
    using Cons.prems(3) by (auto split: sum.splits)
  note i = group_step_inv [OF Cons.prems(1,2) s]
  have "groups_inv gs' \<and> date_inv gs' \<and> records_so_far gs' = records_so_far g1 @ rcs"
    using Cons.IH [of g1] i l by simp
  then show ?case using i by simp
qed

lemma gs0_inv: "groups_inv gs0 \<and> date_inv gs0 \<and> records_so_far gs0 = []"
  by (simp add: gs0_def groups_inv_def date_inv_def records_so_far_def no_orphan_def closed_ok_def)

lemma group_step_ok:
  assumes "date_of rc \<noteq> None"
  shows "\<exists>gs'. group_step gs rc = Inr gs'"
proof -
  obtain ts where "strptime (rc_timestamp rc) = Inr ts" using assms date_of_Some by blast
  then show ?thesis by (simp add: group_step_def Let_def)
qed

lemma group_loop_ok: "\<forall>r \<in> set rcs. date_of r \<noteq> None \<Longrightarrow> \<exists>gs'. group_loop gs rcs = Inr gs'"
proof (induction rcs arbitrary: gs)
  case Nil
  then show ?case by simp
next
  case (Cons rc rcs)
  obtain g1 where "group_step gs rc = Inr g1" using Cons.prems group_step_ok [of rc gs] by auto
  then show ?case using Cons.IH [of g1] Cons.prems by simp
qed

lemma set_sort_changes: "set (sort_changes changes) = set changes"
  by (simp add: sort_changes_def)

lemma report_items_ok:
  assumes "\<forall>r \<in> set changes. date_of r \<noteq> None"
  shows "\<exists>items. report_items changes = Inr items"
proof -
  have "\<forall>r \<in> set (sort_changes changes). date_of r \<noteq> None"
    using assms by (simp add: set_sort_changes)
  then obtain gs where "group_loop gs0 (sort_changes changes) = Inr gs"
    using group_loop_ok by blast
  then show ?thesis by (simp add: report_items_def)
qed

lemma report_items_inv:
  assumes "report_items changes = Inr items"
  shows "no_orphan items \<and> closed_ok (sections_of items) \<and>
         report_records (sections_of items) = sort_changes changes"
proof -
  obtain gs where l: "group_loop gs0 (sort_changes changes) = Inr gs"
    and items: "items = g_items (group_flush gs)"
    using assms by (auto simp: report_items_def split: sum.splits)
  have i: "groups_inv gs \<and> date_inv gs \<and> records_so_far gs = sort_changes changes"
    using group_loop_inv [OF _ _ l] gs0_inv by simp
  note f = group_flush_inv [of gs]
  have "groups_inv (group_flush gs)" "g_group (group_flush gs) = []"
       "records_so_far (group_flush gs) = sort_changes changes"
    using f i by simp_all
  then show ?thesis unfolding items
    by (simp_all add: groups_inv_def records_so_far_def Let_def)
qed

section \<open>The in-place sort\<close>

lemma sorted_sort_changes: "sorted (rev (map rc_timestamp (sort_changes changes)))"
  by (simp add: sort_changes_def rev_map)

lemma mset_sort_changes: "mset (sort_changes changes) = mset changes"
  by (simp add: sort_changes_def)

lemma sort_changes_sorted_id:
  assumes "sorted (rev (map rc_timestamp changes))"
  shows "sort_changes changes = changes"
proof -
  have "sorted (map rc_timestamp (rev changes))" using assms by (simp add: rev_map)
  then have "sort_key rc_timestamp (rev changes) = rev changes" by (rule sort_key_id_if_sorted)
  then show ?thesis by (simp add: sort_changes_def)
qed

lemma sort_changes_idem: "sort_changes (sort_changes changes) = sort_changes changes"
  by (rule sort_changes_sorted_id) (rule sorted_sort_changes)

lemma fst_format_changes:
  "fst (format_changes changes base_url start_date end_date title) = sort_changes changes"
  by (simp add: format_changes_def Let_def)

lemma descending_bounds:
  fixes f :: "'a \<Rightarrow> 'b :: linorder"
  assumes "sorted (rev (map f g))" and "r \<in> set g"
  shows "f (last g) \<le> f r \<and> f r \<le> f (hd g)"
proof -
  have sw: "sorted_wrt (\<lambda>a b. b \<le> a) (map f g)"
    using assms(1) by (simp add: sorted_wrt_rev)
  have g: "g \<noteq> []" using assms(2) by auto
  have hd: "f r \<le> f (hd g)"
    using sw assms(2) g by (cases g) auto
  have "f (last g) \<le> f r"
  proof -
    obtain ys z where yz: "g = ys @ [z]" using g by (metis rev_exhaust)
    show ?thesis using sw assms(2) unfolding yz by (auto simp: sorted_wrt_append)
  qed
  then show ?thesis using hd by simp
qed

section \<open>Rendering a group\<close>

lemma format_entries_ok:
  "\<forall>r \<in> set g. date_of r \<noteq> None \<Longrightarrow> \<exists>ls. format_entries base_url g = Inr ls"
proof (induction g)
  case Nil
  then show ?case by simp
next
  case (Cons r g)
  then obtain ls where "format_entries base_url g = Inr ls" by auto
  moreover obtain ts where "strptime (rc_timestamp r) = Inr ts"
    using Cons.prems date_of_Some by auto
  ultimately show ?case by simp
qed

lemma format_group_ok:
  assumes "g \<noteq> []" and "\<forall>r \<in> set g. date_of r \<noteq> None"
  shows "\<exists>first_ts last_ts entries.
           strptime (rc_timestamp (hd g)) = Inr first_ts \<and>
           strptime (rc_timestamp (last g)) = Inr last_ts \<and>
           format_entries base_url g = Inr entries \<and>
           format_group g base_url =
             Inr ([group_header base_url (hd g) first_ts last_ts, ''<ul>''] @ entries @ [''</ul>''])"
proof -
  obtain x xs where g: "g = x # xs" using assms(1) by (cases g) auto
  obtain first_ts where f: "strptime (rc_timestamp (hd g)) = Inr first_ts"
    using assms date_of_Some [of "hd g"] by auto
  obtain last_ts where l: "strptime (rc_timestamp (last g)) = Inr last_ts"
    using assms date_of_Some [of "last g"] by auto
  obtain entries where e: "format_entries base_url g = Inr entries"
    using format_entries_ok [OF assms(2)] by auto
  show ?thesis using f l e unfolding g by (simp add: format_group_def)
qed

section \<open>The HTML is the rendering of the sections\<close>

lemma flush_rel:
  assumes "fc_rel b pre st gs"
  shows "\<exists>st'. flush b st = Inr st' \<and> fc_rel b pre st' (group_flush gs)"
proof (cases "g_group gs = []")
  case True
  then show ?thesis using assms by (simp add: flush_def group_flush_def fc_rel_def)
next
  case False
  have ne: "cur_group st \<noteq> []" using False assms by (simp add: fc_rel_def)
  have p: "\<forall>r \<in> set (cur_group st). date_of r \<noteq> None" using assms by (simp add: fc_rel_def)
  obtain ls where ls: "format_group (cur_group st) b = Inr ls"
    using format_group_ok [OF ne p, of b] by blast
  have gl: "group_lines b (g_group gs) = ls" using ls assms by (simp add: group_lines_def fc_rel_def)
  show ?thesis using ne False ls gl assms
    by (simp add: flush_def group_flush_def fc_rel_def)
qed

lemma open_section_rel:
  assumes "fc_rel b pre st gs"
  shows "\<exists>st'. open_section b st ts = Inr st' \<and> fc_rel b pre st' (group_open_section gs ts)"
proof (cases "g_current_date gs = Some (strftime_Y_m_d ts)")
  case True
  then show ?thesis using assms by (simp add: open_section_def group_open_section_def fc_rel_def Let_def)
next
  case False
  let ?s0 = "st\<lparr>current_date := Some (strftime_Y_m_d ts)\<rparr>"
  let ?g0 = "gs\<lparr>g_current_date := Some (strftime_Y_m_d ts)\<rparr>"
  have r0: "fc_rel b pre ?s0 ?g0" using assms by (simp add: fc_rel_def)
  obtain s1 where s1: "flush b ?s0 = Inr s1" and r1: "fc_rel b pre s1 (group_flush ?g0)"
    using flush_rel [OF r0] by blast
  have cd: "current_date st \<noteq> Some (strftime_Y_m_d ts)" using False assms by (simp add: fc_rel_def)
  show ?thesis using cd False s1 r1
    by (simp add: open_section_def group_open_section_def fc_rel_def Let_def heading_line_def)
qed

lemma format_step_rel:
  assumes "fc_rel b pre st gs"
  shows "case group_step gs rc of
           Inl e \<Rightarrow> format_step b st rc = Inl e
         | Inr gs' \<Rightarrow> (\<exists>st'. format_step b st rc = Inr st' \<and> fc_rel b pre st' gs')"
proof (cases "strptime (rc_timestamp rc)")
  case (Inl e)
  then show ?thesis by (simp add: group_step_def format_step_def)
next
  case (Inr ts)
  have d: "date_of rc \<noteq> None" using Inr by (simp add: date_of_def)
  obtain s1 where s1: "open_section b st ts = Inr s1"
    and r1: "fc_rel b pre s1 (group_open_section gs ts)"
    using open_section_rel [OF assms] by blast
  let ?g1 = "group_open_section gs ts"
  show ?thesis
  proof (cases "Some (rc_user rc) = g_last_user ?g1 \<and> Some (rc_title rc) = g_last_page ?g1")
    case True
    have T: "Some (rc_user rc) = last_user s1 \<and> Some (rc_title rc) = last_page s1"
      using True r1 by (simp add: fc_rel_def)
    have gstep: "group_step gs rc = Inr (?g1\<lparr>g_group := g_group ?g1 @ [rc]\<rparr>)"
      using Inr True by (simp add: group_step_def Let_def)
    have fstep: "format_step b st rc = Inr (s1\<lparr>cur_group := cur_group s1 @ [rc]\<rparr>)"
      using Inr s1 T by (simp add: format_step_def)
    have "fc_rel b pre (s1\<lparr>cur_group := cur_group s1 @ [rc]\<rparr>)
            (?g1\<lparr>g_group := g_group ?g1 @ [rc]\<rparr>)"
      using r1 d by (simp add: fc_rel_def)
    then show ?thesis unfolding gstep fstep by simp
  next
    case False
    let ?g2 = "group_flush ?g1"
    obtain s2 where s2: "flush b s1 = Inr s2" and r2: "fc_rel b pre s2 ?g2"
      using flush_rel [OF r1] by blast
    have F: "\<not> (Some (rc_user rc) = last_user s1 \<and> Some (rc_title rc) = last_page s1)"
      using False r1 by (simp add: fc_rel_def)
    have gstep: "group_step gs rc
                 = Inr (?g2\<lparr>g_last_user := Some (rc_user rc), g_last_page := Some (rc_title rc),
                             g_group := g_group ?g2 @ [rc]\<rparr>)"
      unfolding group_step_def Inr Let_def using False by (simp only: sum.case if_False)
    have fstep: "format_step b st rc
                 = Inr (s2\<lparr>last_user := Some (rc_user rc), last_page := Some (rc_title rc),
                           cur_group := cur_group s2 @ [rc]\<rparr>)"
      unfolding format_step_def using F by (simp only: Inr sum.case s1 if_False s2)
    have "fc_rel b pre (s2\<lparr>last_user := Some (rc_user rc), last_page := Some (rc_title rc),
                           cur_group := cur_group s2 @ [rc]\<rparr>)
            (?g2\<lparr>g_last_user := Some (rc_user rc), g_last_page := Some (rc_title rc),
                             g_group := g_group ?g2 @ [rc]\<rparr>)"
      using r2 d by (simp add: fc_rel_def)
    then show ?thesis unfolding gstep fstep by simp
  qed
qed

lemma format_loop_rel:
  "fc_rel b pre st gs \<Longrightarrow>
   (case group_loop gs rcs of
      Inl e \<Rightarrow> format_loop b st rcs = Inl e
    | Inr gs' \<Rightarrow> (\<exists>st'. format_loop b st rcs = Inr st' \<and> fc_rel b pre st' gs'))"
proof (induction rcs arbitrary: st gs)
  case Nil
  then show ?case by simp
next
  case (Cons rc rcs)
  show ?case
  proof (cases "group_step gs rc")
    case (Inl e)
    then show ?thesis using format_step_rel [OF Cons.prems, of rc] by simp
  next
    case (Inr g1)
    then obtain s1 where s1: "format_step b st rc = Inr s1" and r1: "fc_rel b pre s1 g1"
      using format_step_rel [OF Cons.prems, of rc] by auto
    show ?thesis using Cons.IH [OF r1] Inr s1 by (cases "group_loop g1 rcs") auto
  qed
qed

lemma format_changes_items:
  "snd (format_changes changes base_url start_date end_date title) =
     (case report_items changes of
        Inl e \<Rightarrow> Inl e
      | Inr items \<Rightarrow>
          Inr (join nl
                ([''<h1>Weekly '' @ title @ '' report: '' @ strftime_b_d start_date @ '' - ''
                    @ strftime_b_d end_date @ ''</h1>'',
                  ''<p>Here are the recent changes on '' @ title @ '' for the past week:</p>'']
                 @ concat (map (item_lines base_url) items))))"
proof -
  let ?pre = "[''<h1>Weekly '' @ title @ '' report: '' @ strftime_b_d start_date @ '' - ''
                    @ strftime_b_d end_date @ ''</h1>'',
                  ''<p>Here are the recent changes on '' @ title @ '' for the past week:</p>'']"
  let ?st0 = "\<lparr>current_date = None, last_user = None, last_page = None, cur_group = [],
                 output_lines = ?pre\<rparr>"
  have r0: "fc_rel base_url ?pre ?st0 gs0" by (simp add: fc_rel_def gs0_def)
  note L = format_loop_rel [OF r0, of "sort_changes changes"]
  show ?thesis
  proof (cases "group_loop gs0 (sort_changes changes)")
    case (Inl e)
    then show ?thesis using L by (simp add: format_changes_def report_items_def Let_def)
  next
    case (Inr gs)
    then obtain st where st: "format_loop base_url ?st0 (sort_changes changes) = Inr st"
      and r: "fc_rel base_url ?pre st gs" using L by auto
    obtain st' where st': "flush base_url st = Inr st'"
      and r': "fc_rel base_url ?pre st' (group_flush gs)"
      using flush_rel [OF r] by blast
    have "output_lines st' = ?pre @ concat (map (item_lines base_url) (g_items (group_flush gs)))"
      using r' by (simp add: fc_rel_def)
    then show ?thesis using Inr st st'
      by (simp add: format_changes_def report_items_def Let_def)
  qed
qed

lemma format_changes_sections:
  assumes "\<forall>r \<in> set changes. date_of r \<noteq> None"
  shows "\<exists>secs. date_sections changes = Inr secs \<and>
           snd (format_changes changes base_url start_date end_date title)
             = Inr (join nl (report_lines base_url start_date end_date title secs)) \<and>
           closed_ok secs \<and> report_records secs = sort_changes changes"
proof -
  obtain items where items: "report_items changes = Inr items"
    using report_items_ok [OF assms] by blast
  note i = report_items_inv [OF items]
  have l: "concat (map (item_lines base_url) items)
           = concat (map (section_lines base_url) (sections_of items))"
    using i by (intro item_lines_sections) simp
  have "snd (format_changes changes base_url start_date end_date title)
        = Inr (join nl (report_lines base_url start_date end_date title (sections_of items)))"
    by (simp only: format_changes_items items report_lines_def l sum.case)
  then show ?thesis using items i by (simp add: date_sections_def)
qed

section \<open>The example inputs, evaluated\<close>

lemma ex_strptime:
  "strptime (rc_timestamp ex_a1) = Inr ts_a1"
  "strptime (rc_timestamp ex_a2) = Inr ts_a2"
  "strptime (rc_timestamp ex_b) = Inr ts_b"
  "strptime (rc_timestamp ex_a0) = Inr ts_a0"
  "strptime (rc_timestamp ex_x) = Inr ts_x"
  by code_simp+

lemma ex_A:
  "strftime_A ts_a1 = ''Tuesday''" "strftime_A ts_a2 = ''Tuesday''"
  "strftime_A ts_b = ''Tuesday''" "strftime_A ts_a0 = ''Monday''" "strftime_A ts_x = ''Tuesday''"
  by (simp_all add: ts_a1_def ts_a2_def ts_b_def ts_a0_def ts_x_def strftime_A_def ymd2ord_def
      days_before_year_def days_before_month_def is_leap_def weekday_def day_name_def)

lemma ex_Ymd:
  "strftime_Y_m_d ts_a1 = ''2024-01-02''" "strftime_Y_m_d ts_a2 = ''2024-01-02''"
  "strftime_Y_m_d ts_b = ''2024-01-02''" "strftime_Y_m_d ts_a0 = ''2024-01-01''"
  "strftime_Y_m_d ts_x = ''2024-01-02''"
  by code_simp+

lemma ex_HM:
  "strftime_H_M ts_a1 = ''10:00''" "strftime_H_M ts_a2 = ''09:30''"
  "strftime_H_M ts_b = ''09:00''" "strftime_H_M ts_a0 = ''23:50''" "strftime_H_M ts_x = ''08:00''"
  by code_simp+

lemma ex_date_of:
  "date_of ex_a1 = Some ''2024-01-02''" "date_of ex_a2 = Some ''2024-01-02''"
  "date_of ex_b = Some ''2024-01-02''" "date_of ex_a0 = Some ''2024-01-01''"
  "date_of ex_x = Some ''2024-01-02''"
  by (simp_all add: date_of_def ex_strptime ex_Ymd)

lemma ex_fields:
  "rc_user ex_a1 = ''A''" "rc_title ex_a1 = ''Page1''"
  "rc_user ex_a2 = ''A''" "rc_title ex_a2 = ''Page1''"
  "rc_user ex_b = ''B''" "rc_title ex_b = ''Page2''"
  "rc_user ex_a0 = ''A''" "rc_title ex_a0 = ''Page1''"
  by (simp_all add: ex_a1_def ex_a2_def ex_b_def ex_a0_def)

lemma ex_sort:
  "sort_changes [ex_b, ex_a1, ex_a0, ex_a2] = [ex_a1, ex_a2, ex_b, ex_a0]"
  "sort_changes [ex_a2, ex_a1] = [ex_a1, ex_a2]"
  "sort_changes [ex_a0, ex_a2, ex_a1] = [ex_a1, ex_a2, ex_a0]"
  by (simp_all add: sort_changes_def ex_a1_def ex_a2_def ex_b_def ex_a0_def)

lemma ex_loop:
  "group_loop gs0 [ex_a1, ex_a2, ex_b, ex_a0]
     = Inr \<lparr>g_current_date = Some ''2024-01-01'', g_last_user = Some ''A'',
            g_last_page = Some ''Page1'', g_group = [ex_a0],
            g_items = [Heading ''2024-01-02'' ''Tuesday'', Group [ex_a1, ex_a2], Group [ex_b],
                       Heading ''2024-01-01'' ''Monday'']\<rparr>"
  "group_loop gs0 [ex_a1, ex_a2, ex_a0]
     = Inr \<lparr>g_current_date = Some ''2024-01-01'', g_last_user = Some ''A'',
            g_last_page = Some ''Page1'', g_group = [ex_a0],
            g_items = [Heading ''2024-01-02'' ''Tuesday'', Group [ex_a1, ex_a2],
                       Heading ''2024-01-01'' ''Monday'']\<rparr>"
  by (simp_all add: gs0_def group_step_def group_open_section_def group_flush_def Let_def
      ex_strptime ex_A ex_Ymd ex_fields)

lemma ex_sections:
  "date_sections [ex_b, ex_a1, ex_a0, ex_a2] =
     Inr [\<lparr>ds_date = ''2024-01-02'', ds_day = ''Tuesday'', ds_groups = [[ex_a1, ex_a2], [ex_b]]\<rparr>,
          \<lparr>ds_date = ''2024-01-01'', ds_day = ''Monday'', ds_groups = [[ex_a0]]\<rparr>]"
  "date_sections [ex_a0, ex_a2, ex_a1] =
     Inr [\<lparr>ds_date = ''2024-01-02'', ds_day = ''Tuesday'', ds_groups = [[ex_a1, ex_a2]]\<rparr>,
          \<lparr>ds_date = ''2024-01-01'', ds_day = ''Monday'', ds_groups = [[ex_a0]]\<rparr>]"
  by (simp_all only: date_sections_def report_items_def ex_sort ex_loop)
     (simp_all add: group_flush_def sections_of_def)

section \<open>The claims about the formatter\<close>

text \<open>
  Claim C1. Whenever every timestamp parses, the formatter returns, its HTML is the rendering
  of date sections whose groups, concatenated section by section, are exactly the input sorted
  by timestamp in descending order (stably): the same records as the input, none added, dropped,
  duplicated or moved across groups.
\<close>

theorem format_changes_preserves_records:
  assumes "\<forall>r \<in> set changes. date_of r \<noteq> None"
  shows "\<exists>secs. date_sections changes = Inr secs \<and>
           snd (format_changes changes base_url start_date end_date title)
             = Inr (join nl (report_lines base_url start_date end_date title secs)) \<and>
           report_records secs = sort_changes changes \<and>
           mset (report_records secs) = mset changes \<and>
           sorted (rev (map rc_timestamp (report_records secs)))"
proof -
  obtain secs where s: "date_sections changes = Inr secs"
    "snd (format_changes changes base_url start_date end_date title)
       = Inr (join nl (report_lines base_url start_date end_date title secs))"
    "report_records secs = sort_changes changes"
    using format_changes_sections [OF assms] by blast
  have "mset (report_records secs) = mset changes" using s(3) by (simp add: mset_sort_changes)
  moreover have "sorted (rev (map rc_timestamp (report_records secs)))"
    using s(3) by (simp add: sorted_sort_changes)
  ultimately show ?thesis using s by blast
qed

theorem format_changes_preserves_records_witness:
  "date_of ex_b \<noteq> None \<and> date_of ex_a1 \<noteq> None \<and> date_of ex_a0 \<noteq> None \<and>
   date_of ex_a2 \<noteq> None \<and>
   date_sections [ex_b, ex_a1, ex_a0, ex_a2] =
     Inr [\<lparr>ds_date = ''2024-01-02'', ds_day = ''Tuesday'', ds_groups = [[ex_a1, ex_a2], [ex_b]]\<rparr>,
          \<lparr>ds_date = ''2024-01-01'', ds_day = ''Monday'', ds_groups = [[ex_a0]]\<rparr>] \<and>
   report_records
     [\<lparr>ds_date = ''2024-01-02'', ds_day = ''Tuesday'', ds_groups = [[ex_a1, ex_a2], [ex_b]]\<rparr>,
      \<lparr>ds_date = ''2024-01-01'', ds_day = ''Monday'', ds_groups = [[ex_a0]]\<rparr>]
     = [ex_a1, ex_a2, ex_b, ex_a0] \<and>
   mset [ex_a1, ex_a2, ex_b, ex_a0] = mset [ex_b, ex_a1, ex_a0, ex_a2]"
proof -
  have h: "\<forall>r \<in> set [ex_b, ex_a1, ex_a0, ex_a2]. date_of r \<noteq> None"
    by (simp add: ex_date_of)
  from format_changes_preserves_records [OF h, of ex_base_url ts_a0 ts_a1 "''wiki''"]
  obtain secs where "date_sections [ex_b, ex_a1, ex_a0, ex_a2] = Inr secs"
    and "report_records secs = sort_changes [ex_b, ex_a1, ex_a0, ex_a2]"
    and "mset (report_records secs) = mset [ex_b, ex_a1, ex_a0, ex_a2]" by blast
  then show ?thesis using h by (simp add: ex_sections ex_sort)
qed

text \<open>
  Claim C3. Whenever every timestamp parses, the formatter returns the rendering of date
  sections in which every group is non-empty, its records have the user and the page title of
  its first record, and each of them falls on the section's date; so a record with the key of the
  group before it, but on another date, is in another group.
\<close>

theorem edit_groups_uniform:
  assumes "\<forall>r \<in> set changes. date_of r \<noteq> None"
  shows "\<exists>secs. date_sections changes = Inr secs \<and>
           snd (format_changes changes base_url start_date end_date title)
             = Inr (join nl (report_lines base_url start_date end_date title secs)) \<and>
           (\<forall>s \<in> set secs. \<forall>g \<in> set (ds_groups s).
               g \<noteq> [] \<and>
               (\<forall>r \<in> set g. rc_user r = rc_user (hd g) \<and> rc_title r = rc_title (hd g)
                              \<and> date_of r = Some (ds_date s)))"
proof -
  obtain secs where "date_sections changes = Inr secs"
    and "snd (format_changes changes base_url start_date end_date title)
           = Inr (join nl (report_lines base_url start_date end_date title secs))"
    and "closed_ok secs"
    using format_changes_sections [OF assms] by blast
  then show ?thesis unfolding closed_ok_def group_ok_def by blast
qed

theorem edit_groups_uniform_witness:
  "date_of ex_a0 \<noteq> None \<and> date_of ex_a2 \<noteq> None \<and> date_of ex_a1 \<noteq> None \<and>
   date_sections [ex_a0, ex_a2, ex_a1] =
     Inr [\<lparr>ds_date = ''2024-01-02'', ds_day = ''Tuesday'', ds_groups = [[ex_a1, ex_a2]]\<rparr>,
          \<lparr>ds_date = ''2024-01-01'', ds_day = ''Monday'', ds_groups = [[ex_a0]]\<rparr>] \<and>
   snd (format_changes [ex_a0, ex_a2, ex_a1] ex_base_url ts_a1 ts_a0 ''wiki'')
     = Inr (join nl (report_lines ex_base_url ts_a1 ts_a0 ''wiki''
         [\<lparr>ds_date = ''2024-01-02'', ds_day = ''Tuesday'', ds_groups = [[ex_a1, ex_a2]]\<rparr>,
          \<lparr>ds_date = ''2024-01-01'', ds_day = ''Monday'', ds_groups = [[ex_a0]]\<rparr>])) \<and>
   rc_user ex_a0 = rc_user ex_a2 \<and> rc_title ex_a0 = rc_title ex_a2 \<and>
   date_of ex_a0 \<noteq> date_of ex_a2 \<and>
   rc_user ex_a2 = rc_user ex_a1 \<and> rc_title ex_a2 = rc_title ex_a1 \<and>
   date_of ex_a1 = Some ''2024-01-02'' \<and> date_of ex_a2 = Some ''2024-01-02'' \<and>
   date_of ex_a0 = Some ''2024-01-01''"
proof -
  have h: "\<forall>r \<in> set [ex_a0, ex_a2, ex_a1]. date_of r \<noteq> None"
    by (simp add: ex_date_of)
  from edit_groups_uniform [OF h, of ex_base_url ts_a1 ts_a0 "''wiki''"]
  obtain secs where s: "date_sections [ex_a0, ex_a2, ex_a1] = Inr secs"
    and f: "snd (format_changes [ex_a0, ex_a2, ex_a1] ex_base_url ts_a1 ts_a0 ''wiki'')
              = Inr (join nl (report_lines ex_base_url ts_a1 ts_a0 ''wiki'' secs))"
    and u: "\<forall>s \<in> set secs. \<forall>g \<in> set (ds_groups s).
               g \<noteq> [] \<and>
               (\<forall>r \<in> set g. rc_user r = rc_user (hd g) \<and> rc_title r = rc_title (hd g)
                              \<and> date_of r = Some (ds_date s))" by blast
  have e: "secs = [\<lparr>ds_date = ''2024-01-02'', ds_day = ''Tuesday'', ds_groups = [[ex_a1, ex_a2]]\<rparr>,
          \<lparr>ds_date = ''2024-01-01'', ds_day = ''Monday'', ds_groups = [[ex_a0]]\<rparr>]"
    using s by (simp add: ex_sections)
  have g: "rc_user ex_a2 = rc_user ex_a1 \<and> rc_title ex_a2 = rc_title ex_a1 \<and>
           date_of ex_a1 = Some ''2024-01-02'' \<and> date_of ex_a2 = Some ''2024-01-02'' \<and>
           date_of ex_a0 = Some ''2024-01-01''"
    using u unfolding e by simp
  have k: "rc_user ex_a0 = rc_user ex_a2 \<and> rc_title ex_a0 = rc_title ex_a2 \<and>
           date_of ex_a0 \<noteq> date_of ex_a2"
    by (simp add: ex_fields ex_date_of)
  have d: "date_of ex_a0 \<noteq> None \<and> date_of ex_a2 \<noteq> None \<and> date_of ex_a1 \<noteq> None"
    using h by simp
  have s': "date_sections [ex_a0, ex_a2, ex_a1] =
     Inr [\<lparr>ds_date = ''2024-01-02'', ds_day = ''Tuesday'', ds_groups = [[ex_a1, ex_a2]]\<rparr>,
          \<lparr>ds_date = ''2024-01-01'', ds_day = ''Monday'', ds_groups = [[ex_a0]]\<rparr>]"
    using s e by simp
  have f': "snd (format_changes [ex_a0, ex_a2, ex_a1] ex_base_url ts_a1 ts_a0 ''wiki'')
     = Inr (join nl (report_lines ex_base_url ts_a1 ts_a0 ''wiki''
         [\<lparr>ds_date = ''2024-01-02'', ds_day = ''Tuesday'', ds_groups = [[ex_a1, ex_a2]]\<rparr>,
          \<lparr>ds_date = ''2024-01-01'', ds_day = ''Monday'', ds_groups = [[ex_a0]]\<rparr>]))"
    using f unfolding e .
  show ?thesis
    apply (intro conjI)
    using d s' f' k g by blast+
qed

text \<open>
  Claim C5. For a non-empty group whose timestamps parse to the datetimes \<open>tss\<close>, in descending
  order of time, \<open>format_group\<close> returns, and its first line starts with the range
  \<open>[time of the last member - time of the first member]\<close>; the last member's time is the
  earliest and the first member's time the latest of the group.
\<close>

theorem format_group_time_range:
  assumes "grp \<noteq> []"
    and "map (\<lambda>rc. strptime (rc_timestamp rc)) grp = map Inr tss"
    and "sorted (rev (map instant tss))"
  shows "\<exists>rest more.
           strptime (rc_timestamp (hd grp)) = Inr (hd tss) \<and>
           strptime (rc_timestamp (last grp)) = Inr (last tss) \<and>
           format_group grp base_url
             = Inr ((''<p><strong>['' @ strftime_H_M (last tss) @ '' - '' @ strftime_H_M (hd tss)
                     @ ''] '' @ rest) # more) \<and>
           (\<forall>ts \<in> set tss. instant (last tss) \<le> instant ts \<and> instant ts \<le> instant (hd tss))"
proof -
  have len: "length tss = length grp" using assms(2) by (metis length_map)
  have tne: "tss \<noteq> []" using assms(1) len by auto
  have nth: "\<And>i. i < length grp \<Longrightarrow> strptime (rc_timestamp (grp ! i)) = Inr (tss ! i)"
  proof -
    fix i assume i: "i < length grp"
    have "map (\<lambda>rc. strptime (rc_timestamp rc)) grp ! i = map Inr tss ! i" using assms(2) by simp
    then show "strptime (rc_timestamp (grp ! i)) = Inr (tss ! i)" using i len by simp
  qed
  have p: "\<forall>r \<in> set grp. date_of r \<noteq> None"
  proof
    fix r assume "r \<in> set grp"
    then obtain i where "i < length grp" and "r = grp ! i" by (metis in_set_conv_nth)
    then show "date_of r \<noteq> None" using nth by (simp add: date_of_def)
  qed
  have h: "strptime (rc_timestamp (hd grp)) = Inr (hd tss)"
    using nth [of 0] assms(1) tne by (simp add: hd_conv_nth)
  have l: "strptime (rc_timestamp (last grp)) = Inr (last tss)"
    using nth [of "length grp - 1"] assms(1) tne len by (simp add: last_conv_nth)
  obtain first_ts last_ts entries where
    f': "strptime (rc_timestamp (hd grp)) = Inr first_ts" and
    l': "strptime (rc_timestamp (last grp)) = Inr last_ts" and
    fg: "format_group grp base_url =
           Inr ([group_header base_url (hd grp) first_ts last_ts, ''<ul>''] @ entries @ [''</ul>''])"
    using format_group_ok [OF assms(1) p] by blast
  have ft: "first_ts = hd tss" and lt: "last_ts = last tss" using f' l' h l by simp_all
  have b: "\<forall>ts \<in> set tss. instant (last tss) \<le> instant ts \<and> instant ts \<le> instant (hd tss)"
    using descending_bounds [OF assms(3)] by blast
  show ?thesis using h l fg b unfolding ft lt
    by (simp add: group_header_def time_range_def Let_def)
qed

theorem format_group_time_range_witness:
  "[ex_a1, ex_a2] \<noteq> [] \<and>
   map (\<lambda>rc. strptime (rc_timestamp rc)) [ex_a1, ex_a2] = map Inr [ts_a1, ts_a2] \<and>
   sorted (rev (map instant [ts_a1, ts_a2])) \<and>
   instant ts_a2 < instant ts_a1 \<and>
   (\<exists>rest more. format_group [ex_a1, ex_a2] ex_base_url
                   = Inr ((''<p><strong>[09:30 - 10:00] '' @ rest) # more))"
proof -
  have h1: "[ex_a1, ex_a2] \<noteq> []" by simp
  have h2: "map (\<lambda>rc. strptime (rc_timestamp rc)) [ex_a1, ex_a2] = map Inr [ts_a1, ts_a2]"
    by (simp add: ex_strptime)
  have lt: "instant ts_a2 < instant ts_a1"
    by (simp add: instant_def ts_a1_def ts_a2_def)
  have h3: "sorted (rev (map instant [ts_a1, ts_a2]))" using lt by simp
  from format_group_time_range [OF h1 h2 h3, of ex_base_url]
  obtain rest more where
    "format_group [ex_a1, ex_a2] ex_base_url
       = Inr ((''<p><strong>['' @ strftime_H_M (last [ts_a1, ts_a2]) @ '' - ''
               @ strftime_H_M (hd [ts_a1, ts_a2]) @ ''] '' @ rest) # more)" by blast
  then have "format_group [ex_a1, ex_a2] ex_base_url
             = Inr ((''<p><strong>[09:30 - 10:00] '' @ rest) # more)"
    by (simp add: ex_HM)
  then show ?thesis using h1 h2 h3 lt by blast
qed

text \<open>
  Claim C8. The formatter is a function of its arguments, and a second call on the list as
  the first call left it (sorted in place) returns the same HTML and leaves the same list.
\<close>

theorem format_changes_idempotent:
  "format_changes (fst (format_changes changes base_url start_date end_date title))
      base_url start_date end_date title
   = format_changes changes base_url start_date end_date title"
  by (simp add: format_changes_def Let_def sort_changes_idem)

theorem format_changes_idempotent_witness:
  "fst (format_changes [ex_a2, ex_a1] ex_base_url ts_a1 ts_a0 ''wiki'') = [ex_a1, ex_a2] \<and>
   format_changes [ex_a1, ex_a2] ex_base_url ts_a1 ts_a0 ''wiki''
     = format_changes [ex_a2, ex_a1] ex_base_url ts_a1 ts_a0 ''wiki''"
  using format_changes_idempotent [of "[ex_a2, ex_a1]" ex_base_url ts_a1 ts_a0 "''wiki''"]
  by (simp add: fst_format_changes ex_sort)

text \<open>
  Claim C9, as stated, fails: the formatter sorts the list it is given in place, so a list that
  is not in descending timestamp order comes back reordered.
\<close>

theorem format_changes_reorders_input:
  "fst (format_changes [ex_a2, ex_a1] ex_base_url ts_a1 ts_a0 ''wiki'') \<noteq> [ex_a2, ex_a1]"
proof -
  have "ex_a1 \<noteq> ex_a2" by (simp add: ex_a1_def ex_a2_def)
  then show ?thesis by (simp add: fst_format_changes ex_sort)
qed

text \<open>
  Claim C9, amended. After \<open>format_changes\<close> the caller's list holds the same records (as a
  multiset, each with the fields it had), in descending order of timestamp, records with equal
  timestamps in their former order; it is the list as supplied exactly when that list was
  already in descending timestamp order.
\<close>

theorem format_changes_sorts_in_place:
  "fst (format_changes changes base_url start_date end_date title) = sort_changes changes \<and>
   mset (fst (format_changes changes base_url start_date end_date title)) = mset changes \<and>
   sorted (rev (map rc_timestamp (fst (format_changes changes base_url start_date end_date title)))) \<and>
   (fst (format_changes changes base_url start_date end_date title) = changes
      \<longleftrightarrow> sorted (rev (map rc_timestamp changes)))"
  using sorted_sort_changes [of changes] sort_changes_sorted_id [of changes]
  by (auto simp add: fst_format_changes mset_sort_changes)

theorem format_changes_sorts_in_place_witness:
  "sorted (rev (map rc_timestamp [ex_a1, ex_a2, ex_b])) \<and>
   fst (format_changes [ex_a1, ex_a2, ex_b] ex_base_url ts_a1 ts_a0 ''wiki'') = [ex_a1, ex_a2, ex_b]"
proof -
  have h: "sorted (rev (map rc_timestamp [ex_a1, ex_a2, ex_b]))"
    by (simp add: ex_a1_def ex_a2_def ex_b_def)
  then show ?thesis
    using format_changes_sorts_in_place [of "[ex_a1, ex_a2, ex_b]" ex_base_url ts_a1 ts_a0 "''wiki''"]
    by blast
qed

section \<open>The claims about the orchestrator\<close>

lemma fetch_pages_events:
  "fetch_pages url replies changes = (r, ev) \<Longrightarrow>
   set ev \<subseteq> {Session_get url, Error ''Failed to retrieve recent changes: ''}"
proof (induction url replies changes arbitrary: r ev rule: fetch_pages.induct)
  case (1 url changes)
  then show ?case by auto
next
  case (2 url replies changes)
  then show ?case by auto
next
  case (3 url rcs continue replies changes)
  show ?case
  proof (cases continue)
    case True
    obtain r' ev' where f: "fetch_pages url replies (changes @ rcs) = (r', ev')"
      by (cases "fetch_pages url replies (changes @ rcs)") auto
    have "set ev' \<subseteq> {Session_get url, Error ''Failed to retrieve recent changes: ''}"
      using "3.IH" [OF True f] .
    moreover have "ev = Session_get url # ev'" using "3.prems" True f by simp
    ultimately show ?thesis by auto
  next
    case False
    then show ?thesis using "3.prems" by auto
  qed
qed

lemma fetch_pages_ok_events:
  "fetch_pages url replies changes = (Inr cs, ev) \<Longrightarrow> set ev \<subseteq> {Session_get url}"
proof (induction url replies changes arbitrary: cs ev rule: fetch_pages.induct)
  case (1 url changes)
  then show ?case by auto
next
  case (2 url replies changes)
  then show ?case by auto
next
  case (3 url rcs continue replies changes)
  show ?case
  proof (cases continue)
    case True
    obtain r' ev' where f: "fetch_pages url replies (changes @ rcs) = (r', ev')"
      by (cases "fetch_pages url replies (changes @ rcs)") auto
    have e: "ev = Session_get url # ev'" and r: "r' = Inr cs" using "3.prems" True f by simp_all
    have "set ev' \<subseteq> {Session_get url}" using "3.IH" [OF True] f r by simp
    then show ?thesis using e by auto
  next
    case False
    then show ?thesis using "3.prems" by auto
  qed
qed

text \<open>
  Claim C7. When the login succeeded and the fetch returned an empty change set, the run ends
  by \<open>sys.exit(0)\<close>; \<open>format_changes\<close> is not called, \<open>requests.post\<close> is not called, nothing is
  logged as an error, and the last log line is the information that there are no changes.
\<close>

theorem empty_change_set_exits_zero:
  assumes "\<not> unset (env ''MW_USERNAME'')" and "\<not> unset (env ''MW_PASSWORD'')"
    and "\<not> unset (env ''RECIPIENT_EMAIL'')"
    and "token_reply w = Some token"
    and "login_reply w = Some (''Success'', reason)"
    and "get_recent_changes w (''https://'' @ fstr (env ''BASE_DOMAIN'') @ ''/w/api.php'')
           (combine_max (last_saturday (utc_today w))) (combine_min (last_sunday (utc_today w)))
         = (Inr [], ev)"
  shows "fst (main env w) = Exit 0 \<and> exit_code (fst (main env w)) = 0 \<and>
         Format_changes \<notin> set (snd (main env w)) \<and>
         (\<forall>url data. Requests_post url data \<notin> set (snd (main env w))) \<and>
         (\<forall>m. Error m \<notin> set (snd (main env w))) \<and>
         last (snd (main env w)) = Info ''No recent changes found in the last week.''"
proof -
  let ?URL = "''https://'' @ fstr (env ''BASE_DOMAIN'') @ ''/w/api.php''"
  have e: "set ev \<subseteq> {Session_get ?URL}"
    using assms(6) fetch_pages_ok_events unfolding get_recent_changes_def by blast
  have m: "main env w =
        (Exit 0,
         [Session_get ?URL,
          Session_post ?URL
            [(''action'', ''login''), (''lgname'', fstr (env ''MW_USERNAME'')),
             (''lgpassword'', fstr (env ''MW_PASSWORD'')), (''format'', ''json''),
             (''lgtoken'', token)],
          Info (''Logged in as '' @ fstr (env ''MW_USERNAME''))]
         @ ev @ [Info ''No recent changes found in the last week.''])"
    using assms
    by (simp add: main_def main_io_def bind_io_def get_login_token_def login_def Let_def)
  show ?thesis unfolding m using e by (auto simp: exit_code_def)
qed

lemma ex_env_values:
  "ex_env ''MW_USERNAME'' = Some ''bot''" "ex_env ''MW_PASSWORD'' = Some ''secret''"
  "ex_env ''RECIPIENT_EMAIL'' = Some ''team@example.org''"
  "ex_env ''BASE_DOMAIN'' = Some ''wiki.example.org''"
  "ex_env ''MAILGUN_API_KEY'' = Some ''key''" "ex_env ''MAILGUN_DOMAIN'' = Some ''mg.example.org''"
  "ex_env ''SENDER_EMAIL'' = Some ''bot@example.org''"
  by (simp_all add: ex_env_def)

theorem empty_change_set_exits_zero_witness:
  "\<not> unset (ex_env ''MW_USERNAME'') \<and> \<not> unset (ex_env ''MW_PASSWORD'') \<and>
   \<not> unset (ex_env ''RECIPIENT_EMAIL'') \<and>
   token_reply (ex_world\<lparr>page_replies := [Page [] False]\<rparr>) = Some ''token'' \<and>
   login_reply (ex_world\<lparr>page_replies := [Page [] False]\<rparr>) = Some (''Success'', None) \<and>
   get_recent_changes (ex_world\<lparr>page_replies := [Page [] False]\<rparr>)
       ''https://wiki.example.org/w/api.php''
       (combine_max (last_saturday 738892)) (combine_min (last_sunday 738892))
     = (Inr [], [Session_get ''https://wiki.example.org/w/api.php'']) \<and>
   fst (main ex_env (ex_world\<lparr>page_replies := [Page [] False]\<rparr>)) = Exit 0 \<and>
   Format_changes \<notin> set (snd (main ex_env (ex_world\<lparr>page_replies := [Page [] False]\<rparr>))) \<and>
   last (snd (main ex_env (ex_world\<lparr>page_replies := [Page [] False]\<rparr>)))
     = Info ''No recent changes found in the last week.''"
proof -
  let ?w = "ex_world\<lparr>page_replies := [Page [] False]\<rparr>"
  have h1: "\<not> unset (ex_env ''MW_USERNAME'')" and h2: "\<not> unset (ex_env ''MW_PASSWORD'')"
    and h3: "\<not> unset (ex_env ''RECIPIENT_EMAIL'')"
    by (simp_all add: unset_def ex_env_values)
  have h4: "token_reply ?w = Some ''token''" and h5: "login_reply ?w = Some (''Success'', None)"
    by (simp_all add: ex_world_def)
  have u: "utc_today ?w = 738892" by (simp add: ex_world_def)
  have h6: "get_recent_changes ?w (''https://'' @ fstr (ex_env ''BASE_DOMAIN'') @ ''/w/api.php'')
              (combine_max (last_saturday (utc_today ?w))) (combine_min (last_sunday (utc_today ?w)))
            = (Inr [], [Session_get ''https://wiki.example.org/w/api.php''])"
    by (simp add: get_recent_changes_def ex_env_values fstr_def)
  have h6': "get_recent_changes ?w ''https://wiki.example.org/w/api.php''
              (combine_max (last_saturday 738892)) (combine_min (last_sunday 738892))
            = (Inr [], [Session_get ''https://wiki.example.org/w/api.php''])"
    by (simp add: get_recent_changes_def)
  from empty_change_set_exits_zero [OF h1 h2 h3 h4 h5 h6]
  show ?thesis using h1 h2 h3 h4 h5 h6' by simp
qed

text \<open>
  Claim C6, as stated, fails in two ways. Without \<open>BASE_DOMAIN\<close> nothing stops the run at
  startup: the first request goes to the host \<open>None\<close>. Without the mail provider's API key the
  run logs in and fetches, and with an empty change set it ends with exit status 0.
\<close>

theorem missing_config_not_fatal_at_startup:
  "main (ex_env(''BASE_DOMAIN'' := None)) (ex_world\<lparr>token_reply := None\<rparr>)
     = (Exit 1, [Session_get ''https://None/w/api.php'', Error ''Failed to retrieve login token: '']) \<and>
   main (ex_env(''MAILGUN_API_KEY'' := None)) (ex_world\<lparr>page_replies := [Page [] False]\<rparr>)
     = (Exit 0,
        [Session_get ''https://wiki.example.org/w/api.php'',
         Session_post ''https://wiki.example.org/w/api.php''
           [(''action'', ''login''), (''lgname'', ''bot''), (''lgpassword'', ''secret''),
            (''format'', ''json''), (''lgtoken'', ''token'')],
         Info ''Logged in as bot'',
         Session_get ''https://wiki.example.org/w/api.php'',
         Info ''No recent changes found in the last week.''])"
  by (simp add: main_def main_io_def bind_io_def get_login_token_def login_def Let_def
      get_recent_changes_def unset_def fstr_def ex_env_def ex_world_def)

lemma fetch_pages_outcome:
  "fetch_pages url replies changes = (Inl oc, ev) \<Longrightarrow> oc = Exit 1"
proof (induction url replies changes arbitrary: ev rule: fetch_pages.induct)
  case (1 url changes)
  then show ?case by auto
next
  case (2 url replies changes)
  then show ?case by auto
next
  case (3 url rcs continue replies changes)
  show ?case
  proof (cases continue)
    case True
    obtain r' ev' where f: "fetch_pages url replies (changes @ rcs) = (r', ev')"
      by (cases "fetch_pages url replies (changes @ rcs)") auto
    have "r' = Inl oc" using "3.prems" True f by simp
    then show ?thesis using "3.IH" [OF True] f by simp
  next
    case False
    then show ?thesis using "3.prems" by auto
  qed
qed

lemma main_io_no_mail:
  assumes "unset (env ''MAILGUN_API_KEY'') \<or> unset (env ''MAILGUN_DOMAIN'')
           \<or> unset (env ''SENDER_EMAIL'')"
  shows "(\<exists>oc. fst (main_io env w) = Inl oc \<and> oc \<noteq> Returned) \<and>
         (\<forall>url data. Requests_post url data \<notin> set (snd (main_io env w)))"
proof -
  let ?URL = "''https://'' @ fstr (env ''BASE_DOMAIN'') @ ''/w/api.php''"
  obtain r ev where f: "fetch_pages ?URL (page_replies w) [] = (r, ev)"
    by (cases "fetch_pages ?URL (page_replies w) []") auto
  have e: "\<forall>url data. Requests_post url data \<notin> set ev"
    using fetch_pages_events [OF f] by auto
  have s: "\<And>subject html rcpt. send_email env w subject html rcpt
             = (Inl (Exit 1), [Error ''Mailgun configuration is missing.''])"
    using assms by (auto simp: send_email_def Let_def)
  have o: "\<And>oc. r = Inl oc \<Longrightarrow> oc = Exit 1"
    using fetch_pages_outcome f by blast
  show ?thesis using f e o
    by (auto simp: main_io_def bind_io_def get_login_token_def login_def Let_def s
        get_recent_changes_def report_title_def run_format_changes_def
        split: option.splits sum.splits prod.splits if_splits)
qed

text \<open>
  Claim C6, amended. Without the wiki user name, the password or the recipient address the run
  ends with exit status 1 before any request is made. Without the mail provider's API key,
  sending domain or sender address, \<open>send_email\<close> ends the run with exit status 1 before its
  request, so no run posts to the mail provider and none returns normally; that check is made
  only when \<open>send_email\<close> is reached.
\<close>

theorem missing_config_fatal:
  "(unset (env ''MW_USERNAME'') \<or> unset (env ''MW_PASSWORD'') \<or> unset (env ''RECIPIENT_EMAIL'')
      \<longrightarrow> (\<exists>m. main env w = (Exit 1, [Error m]))) \<and>
   (unset (env ''MAILGUN_API_KEY'') \<or> unset (env ''MAILGUN_DOMAIN'') \<or> unset (env ''SENDER_EMAIL'')
      \<longrightarrow> send_email env w subject html_content recipient_email
            = (Inl (Exit 1), [Error ''Mailgun configuration is missing.'']) \<and>
          fst (main env w) \<noteq> Returned \<and>
          (\<forall>url data. Requests_post url data \<notin> set (snd (main env w))))"
proof -
  have a: "unset (env ''MW_USERNAME'') \<or> unset (env ''MW_PASSWORD'') \<or> unset (env ''RECIPIENT_EMAIL'')
      \<longrightarrow> (\<exists>m. main env w = (Exit 1, [Error m]))"
    by (auto simp: main_def main_io_def Let_def)
  have b: "send_email env w subject html_content recipient_email
            = (Inl (Exit 1), [Error ''Mailgun configuration is missing.'']) \<and>
          fst (main env w) \<noteq> Returned \<and>
          (\<forall>url data. Requests_post url data \<notin> set (snd (main env w)))"
    if u: "unset (env ''MAILGUN_API_KEY'') \<or> unset (env ''MAILGUN_DOMAIN'') \<or> unset (env ''SENDER_EMAIL'')"
  proof -
    obtain r ev where m: "main_io env w = (r, ev)" by (cases "main_io env w") auto
    obtain oc where oc: "r = Inl oc" and nr: "oc \<noteq> Returned"
      using main_io_no_mail [OF u, of w] m by auto
    have nm: "\<forall>url data. Requests_post url data \<notin> set ev"
      using main_io_no_mail [OF u, of w] m by auto
    have mm: "main env w = (oc, ev)" using m oc by (simp add: main_def)
    show ?thesis using u mm nm nr by (auto simp: send_email_def Let_def)
  qed
  show ?thesis using a b by blast
qed

theorem missing_config_fatal_witness:
  "unset ((ex_env(''MW_PASSWORD'' := None)) ''MW_PASSWORD'') \<and>
   (\<exists>m. main (ex_env(''MW_PASSWORD'' := None)) ex_world = (Exit 1, [Error m])) \<and>
   unset ((ex_env(''SENDER_EMAIL'' := None)) ''SENDER_EMAIL'') \<and>
   send_email (ex_env(''SENDER_EMAIL'' := None)) ex_world ''subject'' ''html'' ''team@example.org''
     = (Inl (Exit 1), [Error ''Mailgun configuration is missing.'']) \<and>
   fst (main (ex_env(''SENDER_EMAIL'' := None)) ex_world) \<noteq> Returned"
proof -
  have h1: "unset ((ex_env(''MW_PASSWORD'' := None)) ''MW_PASSWORD'')"
    and h2: "unset ((ex_env(''SENDER_EMAIL'' := None)) ''SENDER_EMAIL'')"
    by (simp_all add: unset_def)
  show ?thesis
    using h1 h2
      missing_config_fatal [of "ex_env(''MW_PASSWORD'' := None)" ex_world "''subject''" "''html''"
        "''team@example.org''"]
      missing_config_fatal [of "ex_env(''SENDER_EMAIL'' := None)" ex_world "''subject''" "''html''"
        "''team@example.org''"]
    by blast
qed

lemma format_changes_header:
  assumes "snd (format_changes changes base_url start_date end_date title) = Inr html"
  shows "\<exists>rest. html = ''<h1>Weekly '' @ title @ '' report: '' @ strftime_b_d start_date @ '' - ''
                        @ strftime_b_d end_date @ ''</h1>'' @ rest"
proof (cases "report_items changes")
  case (Inl e)
  then show ?thesis using assms by (simp add: format_changes_items)
next
  case (Inr items)
  then have "html = join nl
                ([''<h1>Weekly '' @ title @ '' report: '' @ strftime_b_d start_date @ '' - ''
                    @ strftime_b_d end_date @ ''</h1>'',
                  ''<p>Here are the recent changes on '' @ title @ '' for the past week:</p>'']
                 @ concat (map (item_lines base_url) items))"
    using assms by (simp only: format_changes_items sum.case sum.inject)
  then show ?thesis by simp
qed

lemma window_order: "last_sunday today < last_saturday today"
  by (simp add: last_sunday_def)

text \<open>
  Claim C10. Whenever a run sends the mail, the change set was not empty and \<open>format_changes\<close>
  was called with the Saturday bound as its \<open>start_date\<close> and the Sunday bound as its
  \<open>end_date\<close>: the \<open><h1>\<close> line of the HTML prints the later date first, while the subject of
  the same mail prints the earlier date first.
\<close>

theorem report_header_and_subject_reversed:
  assumes "Requests_post url data \<in> set (snd (main env w))"
  shows "\<exists>domain changes ev html rest.
           env ''BASE_DOMAIN'' = Some domain \<and>
           get_recent_changes w (''https://'' @ domain @ ''/w/api.php'')
               (combine_max (last_saturday (utc_today w))) (combine_min (last_sunday (utc_today w)))
             = (Inr changes, ev) \<and>
           changes \<noteq> [] \<and>
           snd (format_changes changes (''https://'' @ domain)
                  (combine_max (last_saturday (utc_today w)))
                  (combine_min (last_sunday (utc_today w)))
                  (takeWhile (\<lambda>c. c \<noteq> CHR ''.'') domain)) = Inr html \<and>
           map_of data ''html'' = Some html \<and>
           html = ''<h1>Weekly '' @ takeWhile (\<lambda>c. c \<noteq> CHR ''.'') domain @ '' report: ''
                  @ strftime_b_d (combine_max (last_saturday (utc_today w))) @ '' - ''
                  @ strftime_b_d (combine_min (last_sunday (utc_today w))) @ ''</h1>'' @ rest \<and>
           map_of data ''subject''
             = Some (''Weekly '' @ domain @ '' report: ''
                     @ strftime_b_d (combine_min (last_sunday (utc_today w))) @ '' - ''
                     @ strftime_b_d (combine_max (last_saturday (utc_today w)))) \<and>
           last_sunday (utc_today w) < last_saturday (utc_today w)"
proof -
  let ?URL = "''https://'' @ fstr (env ''BASE_DOMAIN'') @ ''/w/api.php''"
  let ?sat = "combine_max (last_saturday (utc_today w))"
  let ?sun = "combine_min (last_sunday (utc_today w))"
  have P: "Requests_post url data \<in> set (snd (main_io env w))"
    using assms by (auto simp: main_def split: prod.splits sum.splits)
  have c: "\<not> unset (env ''MW_USERNAME'')" "\<not> unset (env ''MW_PASSWORD'')"
    "\<not> unset (env ''RECIPIENT_EMAIL'')"
    using P by (auto simp: main_io_def Let_def split: if_splits)
  obtain token where t: "token_reply w = Some token"
    using P c by (cases "token_reply w")
      (auto simp: main_io_def bind_io_def get_login_token_def Let_def)
  obtain reason where l: "login_reply w = Some (''Success'', reason)"
    using P c t by (cases "login_reply w")
      (auto simp: main_io_def bind_io_def get_login_token_def login_def Let_def split: if_splits)
  obtain r ev where f: "fetch_pages ?URL (page_replies w) [] = (r, ev)"
    by (cases "fetch_pages ?URL (page_replies w) []") auto
  have nev: "\<forall>u d. Requests_post u d \<notin> set ev"
    using fetch_pages_events [OF f] by auto
  obtain changes where r: "r = Inr changes"
    using P c t l f nev by (cases r)
      (auto simp: main_io_def bind_io_def get_login_token_def login_def get_recent_changes_def Let_def)
  have ne: "changes \<noteq> []"
    using P c t l f nev r
    by (auto simp: main_io_def bind_io_def get_login_token_def login_def get_recent_changes_def
        Let_def split: if_splits)
  obtain domain where d: "env ''BASE_DOMAIN'' = Some domain"
    using P c t l f nev r ne by (cases "env ''BASE_DOMAIN''")
      (auto simp: main_io_def bind_io_def get_login_token_def login_def get_recent_changes_def
        report_title_def Let_def)
  let ?title = "takeWhile (\<lambda>c. c \<noteq> CHR ''.'') domain"
  obtain html where h: "snd (format_changes changes (''https://'' @ domain) ?sat ?sun ?title) = Inr html"
    using P c t l f nev r ne d
    by (cases "snd (format_changes changes (''https://'' @ domain) ?sat ?sun ?title)")
      (auto simp: main_io_def bind_io_def get_login_token_def login_def get_recent_changes_def
        report_title_def run_format_changes_def fstr_def Let_def)
  have dat: "data = [(''from'', fstr (env ''SENDER_EMAIL'')), (''to'', fstr (env ''RECIPIENT_EMAIL'')),
                     (''subject'', ''Weekly '' @ domain @ '' report: '' @ strftime_b_d ?sun @ '' - ''
                                   @ strftime_b_d ?sat),
                     (''html'', html)]"
    using P c t l f nev r ne d h
    by (auto simp: main_io_def bind_io_def get_login_token_def login_def get_recent_changes_def
        report_title_def run_format_changes_def send_email_def fstr_def Let_def
        split: if_splits option.splits)
  obtain rest where rest: "html = ''<h1>Weekly '' @ ?title @ '' report: '' @ strftime_b_d ?sat
                             @ '' - '' @ strftime_b_d ?sun @ ''</h1>'' @ rest"
    using format_changes_header [OF h] by blast
  have g: "get_recent_changes w (''https://'' @ domain @ ''/w/api.php'') ?sat ?sun = (Inr changes, ev)"
    using f r d by (simp add: get_recent_changes_def fstr_def)
  show ?thesis using d g ne h rest window_order [of "utc_today w"] unfolding dat
    by (intro exI [of _ domain] exI [of _ changes] exI [of _ ev] exI [of _ html] exI [of _ rest]) simp
qed

lemma ex_window:
  "strftime_b_d (combine_max (last_saturday 738892)) = ''Dec 30''"
  "strftime_b_d (combine_min (last_sunday 738892)) = ''Dec 24''"
proof -
  have p: "pad2 30 = ''30''" "pad2 24 = ''24''" by code_simp+
  have o: "ord2ymd 738884 = (2023, 12, 30)" "ord2ymd 738878 = (2023, 12, 24)"
    by (simp_all add: ord2ymd_def Let_def)
  show "strftime_b_d (combine_max (last_saturday 738892)) = ''Dec 30''"
    by (simp add: last_saturday_def weekday_def combine_max_def o strftime_b_d_def month_abbr_def p)
  show "strftime_b_d (combine_min (last_sunday 738892)) = ''Dec 24''"
    by (simp add: last_sunday_def last_saturday_def weekday_def combine_min_def o strftime_b_d_def
        month_abbr_def p)
qed

theorem report_header_and_subject_reversed_witness:
  "\<exists>url data rest.
     Requests_post url data \<in> set (snd (main ex_env ex_world)) \<and>
     map_of data ''subject'' = Some ''Weekly wiki.example.org report: Dec 24 - Dec 30'' \<and>
     map_of data ''html'' = Some (''<h1>Weekly wiki report: Dec 30 - Dec 24</h1>'' @ rest)"
proof -
  let ?sat = "combine_max (last_saturday 738892)"
  let ?sun = "combine_min (last_sunday 738892)"
  have "\<forall>r \<in> set [ex_a1, ex_a2, ex_b]. date_of r \<noteq> None" by (simp add: ex_date_of)
  then obtain html where
    h: "snd (format_changes [ex_a1, ex_a2, ex_b] ''https://wiki.example.org'' ?sat ?sun ''wiki'')
        = Inr html"
    using format_changes_sections [of "[ex_a1, ex_a2, ex_b]"] by blast
  let ?data = "[(''from'', ''bot@example.org''), (''to'', ''team@example.org''),
                (''subject'', ''Weekly wiki.example.org report: '' @ strftime_b_d ?sun @ '' - ''
                              @ strftime_b_d ?sat),
                (''html'', html)]"
  let ?url = "''https://api.mailgun.net/v3/mg.example.org/messages''"
  have tw: "takeWhile (\<lambda>c. c \<noteq> CHR ''.'') ''wiki.example.org'' = ''wiki''" by simp
  have m: "Requests_post ?url ?data \<in> set (snd (main ex_env ex_world))"
    using h
    by (simp add: main_def main_io_def bind_io_def get_login_token_def login_def Let_def
        get_recent_changes_def report_title_def run_format_changes_def send_email_def
        unset_def fstr_def ex_env_values ex_world_def tw)
  from report_header_and_subject_reversed [OF m]
  obtain rest where "html = ''<h1>Weekly '' @ ''wiki'' @ '' report: '' @ strftime_b_d ?sat
                             @ '' - '' @ strftime_b_d ?sun @ ''</h1>'' @ rest"
    by (auto simp: ex_env_values ex_world_def tw)
  then have "map_of ?data ''html'' = Some (''<h1>Weekly wiki report: Dec 30 - Dec 24</h1>'' @ rest)"
    by (simp add: ex_window)
  moreover have "map_of ?data ''subject'' = Some ''Weekly wiki.example.org report: Dec 24 - Dec 30''"
    by (simp add: ex_window)
  ultimately show ?thesis using m by blast
qed

section \<open>Escaping\<close>

lemma replace_char_Nil [simp]: "replace_char c r [] = []"
  by (simp add: replace_char_def)

lemma replace_char_Cons:
  "replace_char c r (x # xs) = (if x = c then r else [x]) @ replace_char c r xs"
  by (simp add: replace_char_def)

lemma replace_char_append [simp]:
  "replace_char c r (xs @ ys) = replace_char c r xs @ replace_char c r ys"
  by (simp add: replace_char_def)

text \<open>What \<open>html.escape\<close> writes for one character.\<close>

lemma html_escape_Nil [simp]: "html_escape [] = []"
  by (simp add: html_escape_def)

lemma html_escape_Cons:
  "html_escape (x # xs) =
     (if x = CHR ''&'' then ''&amp;''
      else if x = CHR ''<'' then ''&lt;''
      else if x = CHR ''>'' then ''&gt;''
      else if x = CHR 0x22 then ''&quot;''
      else if x = CHR 0x27 then ''&#x27;''
      else [x]) @ html_escape xs"
  by (simp add: html_escape_def replace_char_Cons)

lemma html_safe_html_escape: "html_safe (html_escape s)"
  by (induction s) (simp_all add: html_escape_Cons starts_entity_def)

lemma of_char_hex_char:
  "(48 \<le> (of_char (hex_char d) :: nat) \<and> (of_char (hex_char d) :: nat) \<le> 57) \<or>
   (65 \<le> (of_char (hex_char d) :: nat) \<and> (of_char (hex_char d) :: nat) \<le> 70)"
proof -
  have "d mod 16 < 16" by simp
  then show ?thesis by (auto simp: hex_char_def)
qed

lemma url_char_hex_char: "url_char (hex_char d)"
  using of_char_hex_char [of d] by (auto simp: url_char_def always_safe_def Let_def)

lemma url_safe_quote: "url_safe (quote s)"
  by (induction s) (auto simp: url_safe_def quote_def quote_byte_def url_char_def url_char_hex_char [unfolded url_char_def])

lemma url_char_not_special:
  "url_char c \<Longrightarrow> c \<noteq> CHR ''<'' \<and> c \<noteq> CHR ''>'' \<and> c \<noteq> CHR ''&'' \<and> c \<noteq> CHR 0x22 \<and> c \<noteq> CHR 0x27"
  by (auto simp: url_char_def always_safe_def Let_def)

lemma html_safe_not_special:
  "html_safe s \<Longrightarrow> CHR ''<'' \<notin> set s \<and> CHR ''>'' \<notin> set s \<and> CHR 0x22 \<notin> set s \<and> CHR 0x27 \<notin> set s"
  by (induction s) (auto split: if_splits)

lemma format_entries_map:
  "format_entries base_url grp = Inr entries \<Longrightarrow>
   \<exists>tss. map (\<lambda>rc. strptime (rc_timestamp rc)) grp = map Inr tss \<and>
         entries = map2 (edit_entry base_url) grp tss"
proof (induction grp arbitrary: entries)
  case Nil
  then show ?case by simp
next
  case (Cons rc grp)
  obtain ts ls where ts: "strptime (rc_timestamp rc) = Inr ts"
    and ls: "format_entries base_url grp = Inr ls" and e: "entries = edit_entry base_url rc ts # ls"
    using Cons.prems by (auto split: sum.splits)
  obtain tss where "map (\<lambda>rc. strptime (rc_timestamp rc)) grp = map Inr tss"
    and "ls = map2 (edit_entry base_url) grp tss"
    using Cons.IH [OF ls] by blast
  then show ?case using ts e by (intro exI [of _ "ts # tss"]) simp
qed

lemma format_group_lines:
  assumes "format_group grp base_url = Inr ls"
  shows "\<exists>first_ts last_ts tss.
           strptime (rc_timestamp (hd grp)) = Inr first_ts \<and>
           strptime (rc_timestamp (last grp)) = Inr last_ts \<and>
           map (\<lambda>rc. strptime (rc_timestamp rc)) grp = map Inr tss \<and>
           ls = [''<p><strong>'' @ time_range first_ts last_ts @ '' <a href='' @ sq
                   @ base_url @ ''/wiki/'' @ quote (replace_char (CHR '' '') ''_'' (rc_title (hd grp)))
                   @ sq @ ''><strong>'' @ html_escape (rc_title (hd grp)) @ ''</strong></a> ''
                   @ ''[<a href='' @ sq @ base_url @ ''/wiki/User:'' @ quote (rc_user (hd grp))
                   @ sq @ ''>'' @ html_escape (rc_user (hd grp)) @ ''</a>]</strong></p>'',
                 ''<ul>'']
                @ map2 (\<lambda>rc ts.
                     ''<li>[<a href='' @ sq @ base_url @ ''/w/index.php?diff=''
                       @ show_int (rc_revid rc) @ ''&oldid=''
                       @ show_int (case rc_old_revid rc of None \<Rightarrow> 0 | Some i \<Rightarrow> i) @ sq
                       @ ''>diff</a>] ['' @ strftime_H_M ts @ ''] ('' @ sq
                       @ html_escape (case rc_comment rc of None \<Rightarrow> [] | Some c \<Rightarrow> c) @ sq
                       @ '') </li>'') grp tss
                @ [''</ul>''] \<and>
           url_safe (quote (replace_char (CHR '' '') ''_'' (rc_title (hd grp)))) \<and>
           url_safe (quote (rc_user (hd grp))) \<and>
           html_safe (html_escape (rc_title (hd grp))) \<and>
           html_safe (html_escape (rc_user (hd grp))) \<and>
           (\<forall>rc \<in> set grp.
              html_safe (html_escape (case rc_comment rc of None \<Rightarrow> [] | Some c \<Rightarrow> c))) \<and>
           (\<forall>s c. c \<in> set (quote s) \<longrightarrow>
              c \<noteq> CHR ''<'' \<and> c \<noteq> CHR ''>'' \<and> c \<noteq> CHR ''&'' \<and> c \<noteq> CHR 0x22 \<and> c \<noteq> CHR 0x27) \<and>
           (\<forall>s. CHR ''<'' \<notin> set (html_escape s) \<and> CHR ''>'' \<notin> set (html_escape s)
                \<and> CHR 0x22 \<notin> set (html_escape s) \<and> CHR 0x27 \<notin> set (html_escape s))"
proof -
  obtain first_edit rest where g: "grp = first_edit # rest"
    using assms by (cases grp) (auto simp: format_group_def)
  obtain first_ts where f: "strptime (rc_timestamp first_edit) = Inr first_ts"
    using assms unfolding g by (auto simp: format_group_def Let_def split: sum.splits)
  obtain last_ts where l: "strptime (rc_timestamp (last grp)) = Inr last_ts"
    using assms f unfolding g by (auto simp: format_group_def Let_def split: sum.splits)
  obtain entries where e: "format_entries base_url grp = Inr entries"
    using assms f l unfolding g by (auto simp: format_group_def Let_def split: sum.splits)
  have ls: "ls = [group_header base_url (hd grp) first_ts last_ts, ''<ul>''] @ entries @ [''</ul>'']"
    using assms f l e unfolding g by (simp add: format_group_def Let_def)
  obtain tss where t: "map (\<lambda>rc. strptime (rc_timestamp rc)) grp = map Inr tss"
    and en: "entries = map2 (edit_entry base_url) grp tss"
    using format_entries_map [OF e] by blast
  have q: "\<forall>s c. c \<in> set (quote s) \<longrightarrow>
              c \<noteq> CHR ''<'' \<and> c \<noteq> CHR ''>'' \<and> c \<noteq> CHR ''&'' \<and> c \<noteq> CHR 0x22 \<and> c \<noteq> CHR 0x27"
  proof (intro allI impI)
    fix s c assume "c \<in> set (quote s)"
    then have "url_char c" using url_safe_quote [of s] by (simp add: url_safe_def list_all_iff)
    then show "c \<noteq> CHR ''<'' \<and> c \<noteq> CHR ''>'' \<and> c \<noteq> CHR ''&'' \<and> c \<noteq> CHR 0x22 \<and> c \<noteq> CHR 0x27"
      by (rule url_char_not_special)
  qed
  have h: "\<forall>s. CHR ''<'' \<notin> set (html_escape s) \<and> CHR ''>'' \<notin> set (html_escape s)
                \<and> CHR 0x22 \<notin> set (html_escape s) \<and> CHR 0x27 \<notin> set (html_escape s)"
    using html_safe_not_special [OF html_safe_html_escape] by blast
  have ee: "edit_entry base_url = (\<lambda>rc ts.
                     ''<li>[<a href='' @ sq @ base_url @ ''/w/index.php?diff=''
                       @ show_int (rc_revid rc) @ ''&oldid=''
                       @ show_int (case rc_old_revid rc of None \<Rightarrow> 0 | Some i \<Rightarrow> i) @ sq
                       @ ''>diff</a>] ['' @ strftime_H_M ts @ ''] ('' @ sq
                       @ html_escape (case rc_comment rc of None \<Rightarrow> [] | Some c \<Rightarrow> c) @ sq
                       @ '') </li>'')"
    by (intro ext) (simp add: edit_entry_def Let_def)
  have gh: "group_header base_url (hd grp) first_ts last_ts =
              ''<p><strong>'' @ time_range first_ts last_ts @ '' <a href='' @ sq
                   @ base_url @ ''/wiki/'' @ quote (replace_char (CHR '' '') ''_'' (rc_title (hd grp)))
                   @ sq @ ''><strong>'' @ html_escape (rc_title (hd grp)) @ ''</strong></a> ''
                   @ ''[<a href='' @ sq @ base_url @ ''/wiki/User:'' @ quote (rc_user (hd grp))
                   @ sq @ ''>'' @ html_escape (rc_user (hd grp)) @ ''</a>]</strong></p>''"
    by (simp add: group_header_def Let_def)
  have hf: "strptime (rc_timestamp (hd grp)) = Inr first_ts" using f g by simp
  have eq: "ls = [''<p><strong>'' @ time_range first_ts last_ts @ '' <a href='' @ sq
                   @ base_url @ ''/wiki/'' @ quote (replace_char (CHR '' '') ''_'' (rc_title (hd grp)))
                   @ sq @ ''><strong>'' @ html_escape (rc_title (hd grp)) @ ''</strong></a> ''
                   @ ''[<a href='' @ sq @ base_url @ ''/wiki/User:'' @ quote (rc_user (hd grp))
                   @ sq @ ''>'' @ html_escape (rc_user (hd grp)) @ ''</a>]</strong></p>'',
                 ''<ul>'']
                @ map2 (\<lambda>rc ts.
                     ''<li>[<a href='' @ sq @ base_url @ ''/w/index.php?diff=''
                       @ show_int (rc_revid rc) @ ''&oldid=''
                       @ show_int (case rc_old_revid rc of None \<Rightarrow> 0 | Some i \<Rightarrow> i) @ sq
                       @ ''>diff</a>] ['' @ strftime_H_M ts @ ''] ('' @ sq
                       @ html_escape (case rc_comment rc of None \<Rightarrow> [] | Some c \<Rightarrow> c) @ sq
                       @ '') </li>'') grp tss
                @ [''</ul>'']"
    by (simp only: ls en ee gh)
  have cs: "\<forall>rc \<in> set grp.
              html_safe (html_escape (case rc_comment rc of None \<Rightarrow> [] | Some c \<Rightarrow> c))"
    by (simp add: html_safe_html_escape)
  show ?thesis
    apply (rule exI [of _ first_ts])
    apply (rule exI [of _ last_ts])
    apply (rule exI [of _ tss])
    apply (intro conjI)
              apply (rule hf)
             apply (rule l)
            apply (rule t)
           apply (rule eq)
          apply (rule url_safe_quote)
         apply (rule url_safe_quote)
        apply (rule html_safe_html_escape)
       apply (rule html_safe_html_escape)
      apply (rule cs)
     apply (rule q)
    apply (rule h)
    done
qed

text \<open>
  Claim C4. For a non-empty group with timestamps that parse, \<open>format_group\<close> returns, and
  in its lines the page title, the user name and the comments occur in these places only: the
  title and the user name percent-encoded in the two URLs and HTML-escaped in the two link texts,
  each comment HTML-escaped in its list entry. Percent-encoded text consists of unreserved
  characters, slashes and percent escapes, and in HTML-escaped text \<open><\<close>, \<open>>\<close> and the quotes
  do not occur and every \<open>&\<close> starts a character reference: no \<open><\<close>, \<open>>\<close>, \<open>&\<close> or double
  quote of the user's text reaches the output raw.
\<close>

theorem format_group_escapes_user_text:
  assumes "grp \<noteq> []" and "\<forall>r \<in> set grp. date_of r \<noteq> None"
  shows "\<exists>ls first_ts last_ts tss.
           format_group grp base_url = Inr ls \<and>
           strptime (rc_timestamp (hd grp)) = Inr first_ts \<and>
           strptime (rc_timestamp (last grp)) = Inr last_ts \<and>
           map (\<lambda>rc. strptime (rc_timestamp rc)) grp = map Inr tss \<and>
           ls = [''<p><strong>'' @ time_range first_ts last_ts @ '' <a href='' @ sq
                   @ base_url @ ''/wiki/'' @ quote (replace_char (CHR '' '') ''_'' (rc_title (hd grp)))
                   @ sq @ ''><strong>'' @ html_escape (rc_title (hd grp)) @ ''</strong></a> ''
                   @ ''[<a href='' @ sq @ base_url @ ''/wiki/User:'' @ quote (rc_user (hd grp))
                   @ sq @ ''>'' @ html_escape (rc_user (hd grp)) @ ''</a>]</strong></p>'',
                 ''<ul>'']
                @ map2 (\<lambda>rc ts.
                     ''<li>[<a href='' @ sq @ base_url @ ''/w/index.php?diff=''
                       @ show_int (rc_revid rc) @ ''&oldid=''
                       @ show_int (case rc_old_revid rc of None \<Rightarrow> 0 | Some i \<Rightarrow> i) @ sq
                       @ ''>diff</a>] ['' @ strftime_H_M ts @ ''] ('' @ sq
                       @ html_escape (case rc_comment rc of None \<Rightarrow> [] | Some c \<Rightarrow> c) @ sq
                       @ '') </li>'') grp tss
                @ [''</ul>''] \<and>
           url_safe (quote (replace_char (CHR '' '') ''_'' (rc_title (hd grp)))) \<and>
           url_safe (quote (rc_user (hd grp))) \<and>
           html_safe (html_escape (rc_title (hd grp))) \<and>
           html_safe (html_escape (rc_user (hd grp))) \<and>
           (\<forall>rc \<in> set grp.
              html_safe (html_escape (case rc_comment rc of None \<Rightarrow> [] | Some c \<Rightarrow> c))) \<and>
           (\<forall>s c. c \<in> set (quote s) \<longrightarrow>
              c \<noteq> CHR ''<'' \<and> c \<noteq> CHR ''>'' \<and> c \<noteq> CHR ''&'' \<and> c \<noteq> CHR 0x22 \<and> c \<noteq> CHR 0x27) \<and>
           (\<forall>s. CHR ''<'' \<notin> set (html_escape s) \<and> CHR ''>'' \<notin> set (html_escape s)
                \<and> CHR 0x22 \<notin> set (html_escape s) \<and> CHR 0x27 \<notin> set (html_escape s))"
proof -
  obtain ls where ls: "format_group grp base_url = Inr ls"
    using format_group_ok [OF assms, of base_url] by blast
  show ?thesis using ls format_group_lines [OF ls] by blast
qed

lemma ex_x_escaped:
  "html_escape ''<script>'' = ''&lt;script&gt;''"
  "html_escape ''R&D <b>'' = ''R&amp;D &lt;b&gt;''"
  "quote (replace_char (CHR '' '') ''_'' ''R&D <b>'') = ''R%26D_%3Cb%3E''"
  "html_escape [CHR ''O'', CHR 0x27, CHR ''N'', CHR 0x22, CHR ''>''] = ''O&#x27;N&quot;&gt;''"
  "quote [CHR ''O'', CHR 0x27, CHR ''N'', CHR 0x22, CHR ''>''] = ''O%27N%22%3E''"
  by code_simp+

theorem format_group_escapes_user_text_witness:
  "format_group [ex_x] ex_base_url =
     Inr [''<p><strong>[08:00 - 08:00] <a href='' @ sq
            @ ''https://wiki.example.org/wiki/R%26D_%3Cb%3E'' @ sq
            @ ''><strong>R&amp;D &lt;b&gt;</strong></a> [<a href='' @ sq
            @ ''https://wiki.example.org/wiki/User:O%27N%22%3E'' @ sq
            @ ''>O&#x27;N&quot;&gt;</a>]</strong></p>'',
          ''<ul>'',
          ''<li>[<a href='' @ sq @ ''https://wiki.example.org/w/index.php?diff=8&oldid=7'' @ sq
            @ ''>diff</a>] [08:00] ('' @ sq @ ''&lt;script&gt;'' @ sq @ '') </li>'',
          ''</ul>''] \<and>
   html_safe ''&lt;script&gt;'' \<and> html_safe ''R&amp;D &lt;b&gt;'' \<and> url_safe ''R%26D_%3Cb%3E''"
proof -
  have h1: "[ex_x] \<noteq> []" by simp
  have h2: "\<forall>r \<in> set [ex_x]. date_of r \<noteq> None" by (simp add: ex_date_of)
  have si: "show_int 8 = ''8''" "show_int 7 = ''7''" by code_simp+
  from format_group_escapes_user_text [OF h1 h2, of ex_base_url]
  obtain ls first_ts last_ts tss where
    ls: "format_group [ex_x] ex_base_url = Inr ls"
    and f: "strptime (rc_timestamp (hd [ex_x])) = Inr first_ts"
    and la: "strptime (rc_timestamp (last [ex_x])) = Inr last_ts"
    and t: "map (\<lambda>rc. strptime (rc_timestamp rc)) [ex_x] = map Inr tss"
    and l: "ls = [''<p><strong>'' @ time_range first_ts last_ts @ '' <a href='' @ sq
                   @ ex_base_url @ ''/wiki/'' @ quote (replace_char (CHR '' '') ''_'' (rc_title (hd [ex_x])))
                   @ sq @ ''><strong>'' @ html_escape (rc_title (hd [ex_x])) @ ''</strong></a> ''
                   @ ''[<a href='' @ sq @ ex_base_url @ ''/wiki/User:'' @ quote (rc_user (hd [ex_x]))
                   @ sq @ ''>'' @ html_escape (rc_user (hd [ex_x])) @ ''</a>]</strong></p>'',
                 ''<ul>'']
                @ map2 (\<lambda>rc ts.
                     ''<li>[<a href='' @ sq @ ex_base_url @ ''/w/index.php?diff=''
                       @ show_int (rc_revid rc) @ ''&oldid=''
                       @ show_int (case rc_old_revid rc of None \<Rightarrow> 0 | Some i \<Rightarrow> i) @ sq
                       @ ''>diff</a>] ['' @ strftime_H_M ts @ ''] ('' @ sq
                       @ html_escape (case rc_comment rc of None \<Rightarrow> [] | Some c \<Rightarrow> c) @ sq
                       @ '') </li>'') [ex_x] tss
                @ [''</ul>'']"
    and s: "html_safe (html_escape (rc_title (hd [ex_x])))"
       "url_safe (quote (replace_char (CHR '' '') ''_'' (rc_title (hd [ex_x]))))"
       "\<forall>rc \<in> set [ex_x]. html_safe (html_escape (case rc_comment rc of None \<Rightarrow> [] | Some c \<Rightarrow> c))"
    by blast
  have tss: "tss = [ts_x]" using t by (cases tss) (auto simp: ex_strptime)
  have fl: "first_ts = ts_x" "last_ts = ts_x" using f la by (simp_all add: ex_strptime)
  have x: "rc_title ex_x = ''R&D <b>''"
    "rc_user ex_x = [CHR ''O'', CHR 0x27, CHR ''N'', CHR 0x22, CHR ''>'']"
    "rc_comment ex_x = Some ''<script>''" "rc_revid ex_x = 8" "rc_old_revid ex_x = Some 7"
    by (simp_all add: ex_x_def)
  have v: "ls = [''<p><strong>[08:00 - 08:00] <a href='' @ sq
            @ ''https://wiki.example.org/wiki/R%26D_%3Cb%3E'' @ sq
            @ ''><strong>R&amp;D &lt;b&gt;</strong></a> [<a href='' @ sq
            @ ''https://wiki.example.org/wiki/User:O%27N%22%3E'' @ sq
            @ ''>O&#x27;N&quot;&gt;</a>]</strong></p>'',
          ''<ul>'',
          ''<li>[<a href='' @ sq @ ''https://wiki.example.org/w/index.php?diff=8&oldid=7'' @ sq
            @ ''>diff</a>] [08:00] ('' @ sq @ ''&lt;script&gt;'' @ sq @ '') </li>'',
          ''</ul>'']"
    unfolding l tss fl
    by (simp add: x ex_x_escaped ex_HM time_range_def si ex_base_url_def)
  have s1: "html_safe ''&lt;script&gt;''" using s(3) by (simp add: x ex_x_escaped)
  have s2: "html_safe ''R&amp;D &lt;b&gt;''" using s(1) by (simp add: x ex_x_escaped)
  have s3: "url_safe ''R%26D_%3Cb%3E''" using s(2) by (simp add: x ex_x_escaped)
  show ?thesis using ls v s1 s2 s3 by simp
qed

end
